theory Spec2Isabelle
  imports Complex_Main "HOL-Library.Word"
begin

section \<open>Images as the imaging library presents them\<close>

text \<open>
  The program is one Python function, \<^verbatim>\<open>fix_icon_padding\<close>, and the entry point that
  calls it. Every step of it is a call into the Pillow imaging library, so the embedding
  starts with the library values the program handles: an image has a mode, a size and a
  pixel buffer; coordinates and sizes are Python integers. The library is not part of the
  repository: each of its operations is modelled after the library's documented behaviour,
  which the text above the definition states, and the floating-point resampling and the
  outcome of writing to the device are parameters.

  A pixel is stored as four bytes. Their reading depends on the mode: \<open>RGBA\<close> uses
  all four, \<open>RGB\<close> the first three, \<open>LA\<close> the first and the last, \<open>L\<close> (grey level)
  and \<open>P\<close> (palette index) the first only. The model covers these five 8-bit modes.
\<close>

type_synonym byte = "8 word"

type_synonym pixel = "byte \<times> byte \<times> byte \<times> byte"

type_synonym box = "int \<times> int \<times> int \<times> int"

datatype mode = L | LA | P | RGB | RGBA

datatype resampling = NEAREST | BOX | BILINEAR | HAMMING | BICUBIC | LANCZOS

record image =
  mode :: mode
  size_wh :: "int \<times> int"
  px :: "int \<Rightarrow> int \<Rightarrow> pixel"
  palette :: "byte \<Rightarrow> pixel"
  transparency :: "(byte \<times> byte \<times> byte) option"

text \<open>
  \<open>palette\<close> is read in mode \<open>P\<close> only; its entries carry the alpha that the file's
  transparency table gives them (255 where it gives none). \<open>transparency\<close> is the colour
  key of an \<open>L\<close> or \<open>RGB\<close> image (\<^verbatim>\<open>info["transparency"]\<close>): the one colour that stands
  for "transparent", if the file declares one.
\<close>

definition alpha :: "pixel \<Rightarrow> byte" where
  "alpha p = (case p of (r, g, b, a) \<Rightarrow> a)"

definition inside :: "image \<Rightarrow> int \<Rightarrow> int \<Rightarrow> bool" where
  "inside im x y = (case size_wh im of (w, h) \<Rightarrow> 0 \<le> x \<and> x < w \<and> 0 \<le> y \<and> y < h)"

subsection \<open>\<^verbatim>\<open>Image.convert('RGBA')\<close>\<close>

text \<open>
  Grey levels and colours become opaque pixels, except the colour key, which becomes
  transparent; \<open>LA\<close> keeps its alpha band; a palette index is looked up.
\<close>

definition keyed :: "(byte \<times> byte \<times> byte) option \<Rightarrow> byte \<Rightarrow> byte \<Rightarrow> byte \<Rightarrow> pixel" where
  "keyed t r g b = (if t = Some (r, g, b) then (r, g, b, 0) else (r, g, b, 255))"

definition to_rgba :: "image \<Rightarrow> pixel \<Rightarrow> pixel" where
  "to_rgba im p = (case p of (r, g, b, a) \<Rightarrow>
     (case mode im of
        L \<Rightarrow> keyed (transparency im) r r r
      | LA \<Rightarrow> (r, r, r, a)
      | P \<Rightarrow> palette im r
      | RGB \<Rightarrow> keyed (transparency im) r g b
      | RGBA \<Rightarrow> (r, g, b, a)))"

definition convert_RGBA :: "image \<Rightarrow> image" where
  "convert_RGBA im =
     \<lparr>mode = RGBA, size_wh = size_wh im, px = (\<lambda>x y. to_rgba im (px im x y)),
      palette = palette im, transparency = None\<rparr>"

subsection \<open>\<^verbatim>\<open>Image.getbbox()\<close>\<close>

text \<open>
  The bounding box of the pixels that hold data, as (left, upper, right, lower) with the
  right and lower edges exclusive, or \<open>None\<close> when no pixel holds data. In a mode with an
  alpha band a pixel holds data when its alpha is not zero; in the other modes, when one
  of its bands is not zero. The program calls it on an RGBA image, for "the bounding box of
  non-transparent pixels", as its comment says.
\<close>

definition has_data :: "mode \<Rightarrow> pixel \<Rightarrow> bool" where
  "has_data m p = (case p of (r, g, b, a) \<Rightarrow>
     (case m of
        RGBA \<Rightarrow> a \<noteq> 0
      | LA \<Rightarrow> a \<noteq> 0
      | RGB \<Rightarrow> r \<noteq> 0 \<or> g \<noteq> 0 \<or> b \<noteq> 0
      | L \<Rightarrow> r \<noteq> 0
      | P \<Rightarrow> r \<noteq> 0))"

definition holds_data :: "image \<Rightarrow> int \<Rightarrow> int \<Rightarrow> bool" where
  "holds_data im x y = (inside im x y \<and> has_data (mode im) (px im x y))"

definition data_cols :: "image \<Rightarrow> int list" where
  "data_cols im =
     filter (\<lambda>x. \<exists>y \<in> set [0..snd (size_wh im) - 1]. has_data (mode im) (px im x y))
       [0..fst (size_wh im) - 1]"

definition data_rows :: "image \<Rightarrow> int list" where
  "data_rows im =
     filter (\<lambda>y. \<exists>x \<in> set [0..fst (size_wh im) - 1]. has_data (mode im) (px im x y))
       [0..snd (size_wh im) - 1]"

definition getbbox :: "image \<Rightarrow> box option" where
  "getbbox im =
     (if data_cols im = [] then None
      else Some (hd (data_cols im), hd (data_rows im),
                 last (data_cols im) + 1, last (data_rows im) + 1))"

subsection \<open>\<^verbatim>\<open>Image.crop\<close>, \<^verbatim>\<open>Image.resize\<close>, \<^verbatim>\<open>Image.new\<close>, \<^verbatim>\<open>Image.paste\<close>\<close>

datatype error =
  FileNotFoundError | UnidentifiedImageError | PermissionError | OSError | ValueError

text \<open>
  \<open>crop\<close> refuses a box whose right edge is left of its left edge (or lower above upper);
  the part of a box that lies outside the image reads as zero.
\<close>

definition crop :: "image \<Rightarrow> box \<Rightarrow> error + image" where
  "crop im bx = (case bx of (left, upper, right, lower) \<Rightarrow>
     if right < left \<or> lower < upper then Inl ValueError
     else Inr (im\<lparr>size_wh := (right - left, lower - upper),
                  px := (\<lambda>x y. if inside im (x + left) (y + upper)
                                 then px im (x + left) (y + upper) else (0, 0, 0, 0))\<rparr>))"

text \<open>
  \<open>resize\<close> returns an image of exactly the requested size in the mode of its argument.
  When the requested size is the size the image already has, the result is a copy. Otherwise
  the pixels come from the resampling filter, which computes in floating point; the filter's
  arithmetic is the parameter \<open>k\<close> of the model, so every theorem below holds for whatever
  values the filter produces.
\<close>

type_synonym kernel = "resampling \<Rightarrow> image \<Rightarrow> int \<times> int \<Rightarrow> int \<Rightarrow> int \<Rightarrow> pixel"

definition resize :: "kernel \<Rightarrow> image \<Rightarrow> int \<times> int \<Rightarrow> resampling \<Rightarrow> image" where
  "resize k im sz flt =
     (if size_wh im = sz then im else im\<lparr>size_wh := sz, px := k flt im sz\<rparr>)"

definition Image_new :: "mode \<Rightarrow> int \<times> int \<Rightarrow> pixel \<Rightarrow> image" where
  "Image_new m sz c =
     \<lparr>mode = m, size_wh = sz, px = (\<lambda>x y. c), palette = (\<lambda>i. (0, 0, 0, 0)),
      transparency = None\<rparr>"

text \<open>
  \<open>paste\<close> with a mask mixes the pasted image into the destination, band by band, in
  proportion to the mask's alpha: mask 255 copies the pasted pixel, mask 0 keeps the
  destination, and a value in between mixes the two, alpha band included. The mix is the
  library's rounded division by 255. The pasted region has the size of the pasted image
  and is clipped to the destination. The mask has the size of the pasted image (here it is
  the pasted image itself).
\<close>

definition div255 :: "nat \<Rightarrow> nat" where
  "div255 a = (let tmp = a + 128 in (tmp div 256 + tmp) div 256)"

definition blend8 :: "byte \<Rightarrow> byte \<Rightarrow> byte \<Rightarrow> byte" where
  "blend8 m out inp = of_nat (div255 (unat out * (255 - unat m) + unat inp * unat m))"

definition blend :: "byte \<Rightarrow> pixel \<Rightarrow> pixel \<Rightarrow> pixel" where
  "blend m out inp = (case out of (r, g, b, a) \<Rightarrow> (case inp of (r', g', b', a') \<Rightarrow>
     (blend8 m r r', blend8 m g g', blend8 m b b', blend8 m a a')))"

definition paste :: "image \<Rightarrow> image \<Rightarrow> int \<times> int \<Rightarrow> image \<Rightarrow> image" where
  "paste dst src pos msk = (case pos of (ox, oy) \<Rightarrow>
     dst\<lparr>px := (\<lambda>x y. if inside src (x - ox) (y - oy) \<and> inside dst x y
                       then blend (alpha (px msk (x - ox) (y - oy)))
                                  (px dst x y) (px src (x - ox) (y - oy))
                       else px dst x y)\<rparr>)"

section \<open>Files, output and the environment\<close>

text \<open>
  A path holds an image file in some format, or bytes that no decoder accepts (a truncated
  or foreign file). Opening a missing or damaged file raises. Saving opens the path for
  writing, which empties it, and then encodes: the environment decides whether the write
  completes, is refused before the path is touched, or fails after the path was opened.
  In the last case the path is left holding a damaged file, empty or partial, whether it
  existed before or was created by the save.
\<close>

type_synonym path = string

datatype format = PNG | JPEG | GIF

datatype contents = Image_file format image | Damaged

datatype write_outcome = Completes | Refused | Fails_midway

datatype line =
    Icon_fixed path
  | Original_bounding_box box
  | New_size int int
  | Could_not_find_image_content
  | Error_line error

record world =
  files :: "path \<rightharpoonup> contents"
  stdout :: "line list"

record env =
  resample :: kernel
  device :: write_outcome

definition Image_open :: "(path \<rightharpoonup> contents) \<Rightarrow> path \<Rightarrow> error + image" where
  "Image_open fs p = (case fs p of
       None \<Rightarrow> Inl FileNotFoundError
     | Some Damaged \<Rightarrow> Inl UnidentifiedImageError
     | Some (Image_file f im) \<Rightarrow> Inr im)"

definition Image_save ::
  "write_outcome \<Rightarrow> (path \<rightharpoonup> contents) \<Rightarrow> image \<Rightarrow> path \<Rightarrow> format \<Rightarrow> error option \<times> (path \<rightharpoonup> contents)" where
  "Image_save d fs im p f = (case d of
       Completes \<Rightarrow> (None, fs(p \<mapsto> Image_file f im))
     | Refused \<Rightarrow> (Some PermissionError, fs)
     | Fails_midway \<Rightarrow> (Some OSError, fs(p \<mapsto> Damaged)))"

section \<open>The program\<close>

text \<open>
  The three numbers of \<^verbatim>\<open>fix_icon_padding\<close> depend on no input, so they are constants of
  the model. \<^verbatim>\<open>0.90\<close> is a Python float: the double nearest to nine tenths, which is
  \<open>8106479329266893 / 2 ^ 53\<close>. Its product with 1024, a power of two, is exact in double
  arithmetic, so the rational product below is the float the program computes. \<^verbatim>\<open>int\<close>
  truncates it towards zero.
\<close>

definition float_0_90 :: rat where
  "float_0_90 = 8106479329266893 / 9007199254740992"

definition py_int :: "rat \<Rightarrow> int" where
  "py_int q = (if 0 \<le> q then \<lfloor>q\<rfloor> else \<lceil>q\<rceil>)"

definition target_size :: int where
  "target_size = 1024"

definition content_size :: int where
  "content_size = py_int (of_int target_size * float_0_90)"

definition margin :: int where
  "margin = (target_size - content_size) div 2"

text \<open>
  \<^verbatim>\<open>fix_icon_padding(input_path, output_path)\<close>: the result is \<open>Inr True\<close>, \<open>Inr False\<close>
  or \<open>Inl\<close> the exception that escapes; the world is returned as the call leaves it.
  \<open>ensure_RGBA\<close> is the conversion the function starts with (\<^verbatim>\<open>if img.mode != 'RGBA'\<close>).
\<close>

definition ensure_RGBA :: "image \<Rightarrow> image" where
  "ensure_RGBA img = (if mode img \<noteq> RGBA then convert_RGBA img else img)"

definition fix_icon_padding :: "env \<Rightarrow> path \<Rightarrow> path \<Rightarrow> world \<Rightarrow> (error + bool) \<times> world" where
  "fix_icon_padding e input_path output_path w =
     (case Image_open (files w) input_path of
        Inl err \<Rightarrow> (Inl err, w)
      | Inr img0 \<Rightarrow>
          (let img = ensure_RGBA img0;
               bbox = getbbox img
           in case bbox of
                Some bx \<Rightarrow>
                  (case crop img bx of
                     Inl err \<Rightarrow> (Inl err, w)
                   | Inr cropped \<Rightarrow>
                      (let cropped_resized =
                             resize (resample e) cropped (content_size, content_size) LANCZOS;
                           final_img = Image_new RGBA (target_size, target_size) (0, 0, 0, 0);
                           final_img = paste final_img cropped_resized (margin, margin)
                                         cropped_resized
                       in case Image_save (device e) (files w) final_img output_path PNG of
                            (Some err, fs) \<Rightarrow> (Inl err, w\<lparr>files := fs\<rparr>)
                          | (None, fs) \<Rightarrow>
                              (Inr True,
                               w\<lparr>files := fs,
                                 stdout := stdout w @
                                   [Icon_fixed output_path, Original_bounding_box bx,
                                    New_size target_size margin]\<rparr>)))
              | None \<Rightarrow>
                  (Inr False, w\<lparr>stdout := stdout w @ [Could_not_find_image_content]\<rparr>)))"

text \<open>The entry point: fixed paths, exit code 0 on \<open>True\<close>, 1 otherwise.\<close>

definition input_file :: path where
  "input_file = ''assets/icon.png''"

definition output_file :: path where
  "output_file = ''assets/icon.png''"

definition main :: "env \<Rightarrow> world \<Rightarrow> int \<times> world" where
  "main e w = (case fix_icon_padding e input_file output_file w of
       (Inr True, w') \<Rightarrow> (0, w')
     | (Inr False, w') \<Rightarrow> (1, w')
     | (Inl err, w') \<Rightarrow> (1, w'\<lparr>stdout := stdout w' @ [Error_line err]\<rparr>))"

section \<open>Observations and sample inputs\<close>

text \<open>
  The image a path holds, if it holds one; the margins an image leaves around its bounding
  box; and whether two margins on opposite sides agree.
\<close>

definition saved :: "world \<Rightarrow> path \<Rightarrow> image option" where
  "saved w p = (case files w p of Some (Image_file f im) \<Rightarrow> Some im | _ \<Rightarrow> None)"

definition margins :: "image \<Rightarrow> box option" where
  "margins im = (case getbbox im of
       None \<Rightarrow> None
     | Some (l, t, r, b) \<Rightarrow> Some (l, t, fst (size_wh im) - r, snd (size_wh im) - b))"

definition equal_margins :: "image \<Rightarrow> bool" where
  "equal_margins im = (case margins im of
       None \<Rightarrow> False
     | Some (ml, mt, mr, mb) \<Rightarrow> ml = mr \<and> mt = mb \<and> ml = mt)"

text \<open>
  A mode without alpha carries no transparency when an \<open>L\<close> or \<open>RGB\<close> image has no colour
  key and when every entry of a palette is opaque.
\<close>

definition no_transparency :: "image \<Rightarrow> bool" where
  "no_transparency im = (case mode im of
       L \<Rightarrow> transparency im = None
     | RGB \<Rightarrow> transparency im = None
     | P \<Rightarrow> (\<forall>i. alpha (palette im i) = 255)
     | LA \<Rightarrow> False
     | RGBA \<Rightarrow> False)"

text \<open>
  Inputs on which the model is run below. \<open>nearest\<close> is a resampling filter that can be
  evaluated (it picks the nearest source pixel); the images are a single opaque pixel, the
  fully transparent 100 by 100 image and the 512 by 512 image of the scenarios, a 921 by
  921 image at half opacity and one at alpha 11, a black grey-level image, and a 4 by 2
  image whose left half is opaque white and whose right half is a colour at half opacity.
\<close>

definition nearest :: kernel where
  "nearest flt im sz x y =
     px im (x * fst (size_wh im) div fst sz) (y * snd (size_wh im) div snd sz)"

definition dot :: image where
  "dot = Image_new RGBA (1, 1) (255, 255, 255, 255)"

definition blank :: image where
  "blank = Image_new RGBA (100, 100) (0, 0, 0, 0)"

definition scenario :: image where
  "scenario = (Image_new RGBA (512, 512) (0, 0, 0, 0))
     \<lparr>px := (\<lambda>x y. if 100 \<le> x \<and> x < 400 \<and> 100 \<le> y \<and> y < 400
                     then (255, 255, 255, 255) else (0, 0, 0, 0))\<rparr>"

definition veil :: image where
  "veil = Image_new RGBA (921, 921) (0, 0, 0, 128)"

definition faint :: image where
  "faint = Image_new RGBA (921, 921) (0, 0, 0, 11)"

definition bar :: image where
  "bar = (Image_new RGBA (4, 2) (0, 0, 0, 0))
     \<lparr>px := (\<lambda>x y. if x < 2 then (255, 255, 255, 255) else (200, 100, 50, 128))\<rparr>"

definition black :: image where
  "black = Image_new L (2, 2) (0, 0, 0, 0)"

definition icon_world :: "image \<Rightarrow> world" where
  "icon_world im = \<lparr>files = [input_file \<mapsto> Image_file PNG im], stdout = []\<rparr>"

definition env_of :: "write_outcome \<Rightarrow> env" where
  "env_of d = \<lparr>resample = nearest, device = d\<rparr>"

section \<open>Arithmetic of the constants\<close>

lemma content_size_val: "content_size = 921"
  by (simp add: content_size_def target_size_def float_0_90_def py_int_def floor_eq_iff)

lemma margin_val: "margin = 51"
  by (simp add: margin_def content_size_val target_size_def)

section \<open>The bounding box\<close>

lemma inside_iff:
  "inside im x y \<longleftrightarrow> 0 \<le> x \<and> x < fst (size_wh im) \<and> 0 \<le> y \<and> y < snd (size_wh im)"
  by (simp add: inside_def case_prod_beta)

lemma set_data_cols: "set (data_cols im) = {x. \<exists>y. holds_data im x y}"
  by (auto simp: data_cols_def holds_data_def inside_iff)

lemma set_data_rows: "set (data_rows im) = {y. \<exists>x. holds_data im x y}"
  by (auto simp: data_rows_def holds_data_def inside_iff)

lemma sorted_data_cols: "sorted (data_cols im)"
  by (simp add: data_cols_def sorted_wrt_filter)

lemma sorted_data_rows: "sorted (data_rows im)"
  by (simp add: data_rows_def sorted_wrt_filter)

lemma sorted_hd_le: "sorted xs \<Longrightarrow> x \<in> set xs \<Longrightarrow> hd xs \<le> (x::int)"
  by (cases xs) auto

lemma sorted_le_last: "sorted xs \<Longrightarrow> x \<in> set xs \<Longrightarrow> (x::int) \<le> last xs"
  by (induction xs) (auto split: if_splits)

lemma data_cols_empty_iff: "data_cols im = [] \<longleftrightarrow> (\<forall>x y. \<not> holds_data im x y)"
proof -
  have "data_cols im = [] \<longleftrightarrow> set (data_cols im) = {}" by simp
  then show ?thesis unfolding set_data_cols by blast
qed

lemma data_rows_empty_iff: "data_rows im = [] \<longleftrightarrow> (\<forall>x y. \<not> holds_data im x y)"
proof -
  have "data_rows im = [] \<longleftrightarrow> set (data_rows im) = {}" by simp
  then show ?thesis unfolding set_data_rows by blast
qed

lemma getbbox_None_iff: "getbbox im = None \<longleftrightarrow> (\<forall>x y. \<not> holds_data im x y)"
  by (simp add: getbbox_def data_cols_empty_iff)

lemma getbbox_Some_contains:
  assumes "getbbox im = Some (l, t, r, b)" and "holds_data im x y"
  shows "l \<le> x \<and> x < r \<and> t \<le> y \<and> y < b"
proof -
  from assms(2) have xc: "x \<in> set (data_cols im)" and yr: "y \<in> set (data_rows im)"
    by (auto simp: set_data_cols set_data_rows)
  then have ne: "data_cols im \<noteq> []" by auto
  with assms(1) have eq: "l = hd (data_cols im)" "t = hd (data_rows im)"
      "r = last (data_cols im) + 1" "b = last (data_rows im) + 1"
    by (simp_all add: getbbox_def)
  from sorted_hd_le [OF sorted_data_cols xc] sorted_le_last [OF sorted_data_cols xc]
       sorted_hd_le [OF sorted_data_rows yr] sorted_le_last [OF sorted_data_rows yr]
  show ?thesis unfolding eq by simp
qed

lemma getbbox_Some_touches:
  assumes "getbbox im = Some (l, t, r, b)"
  shows "(\<exists>y. holds_data im l y) \<and> (\<exists>y. holds_data im (r - 1) y) \<and>
         (\<exists>x. holds_data im x t) \<and> (\<exists>x. holds_data im x (b - 1))"
proof -
  from assms have ne: "data_cols im \<noteq> []"
    by (auto simp: getbbox_def split: if_splits)
  then have ner: "data_rows im \<noteq> []"
    by (simp add: data_cols_empty_iff data_rows_empty_iff)
  from assms ne have eq: "l = hd (data_cols im)" "t = hd (data_rows im)"
      "r = last (data_cols im) + 1" "b = last (data_rows im) + 1"
    by (simp_all add: getbbox_def)
  have "hd (data_cols im) \<in> set (data_cols im)" "last (data_cols im) \<in> set (data_cols im)"
       "hd (data_rows im) \<in> set (data_rows im)" "last (data_rows im) \<in> set (data_rows im)"
    using ne ner by simp_all
  then show ?thesis unfolding eq set_data_cols set_data_rows by simp
qed

lemma getbbox_least:
  assumes g: "getbbox im = Some (l, t, r, b)"
    and inb: "\<And>x y. holds_data im x y \<Longrightarrow> l' \<le> x \<and> x < r' \<and> t' \<le> y \<and> y < b'"
  shows "l' \<le> l \<and> t' \<le> t \<and> r \<le> r' \<and> b \<le> b'"
proof -
  from getbbox_Some_touches [OF g] obtain yl yr xt xb where
    "holds_data im l yl" "holds_data im (r - 1) yr"
    "holds_data im xt t" "holds_data im xb (b - 1)" by blast
  from inb [OF this(1)] inb [OF this(2)] inb [OF this(3)] inb [OF this(4)]
  show ?thesis by simp
qed

lemma getbbox_eqI:
  assumes inb: "\<And>x y. holds_data im x y \<Longrightarrow> l \<le> x \<and> x < r \<and> t \<le> y \<and> y < b"
    and "holds_data im l yl" and "holds_data im (r - 1) yr"
    and "holds_data im xt t" and "holds_data im xb (b - 1)"
  shows "getbbox im = Some (l, t, r, b)"
proof -
  from assms(2) have "getbbox im \<noteq> None" by (auto simp: getbbox_None_iff)
  then obtain l' t' r' b' where g: "getbbox im = Some (l', t', r', b')"
    by (cases "getbbox im") auto
  note c = getbbox_Some_contains [OF g]
  from c [OF assms(2)] c [OF assms(3)] c [OF assms(4)] c [OF assms(5)]
  have "l' \<le> l" "r \<le> r'" "t' \<le> t" "b \<le> b'" by auto
  moreover from getbbox_least [OF g inb] have "l \<le> l'" "t \<le> t'" "r' \<le> r" "b' \<le> b"
    by simp_all
  ultimately show ?thesis using g by simp
qed

lemma getbbox_within:
  assumes g: "getbbox im = Some (l, t, r, b)"
  shows "0 \<le> l \<and> l < r \<and> r \<le> fst (size_wh im) \<and> 0 \<le> t \<and> t < b \<and> b \<le> snd (size_wh im)"
proof -
  from getbbox_Some_touches [OF g] obtain yl yr xt xb where
    h: "holds_data im l yl" "holds_data im (r - 1) yr"
    "holds_data im xt t" "holds_data im xb (b - 1)" by blast
  from getbbox_Some_contains [OF g h(1)] h
  show ?thesis by (auto simp: holds_data_def inside_iff)
qed

section \<open>The steps of the pipeline\<close>

lemma mode_ensure_RGBA: "mode (ensure_RGBA im) = RGBA"
  by (simp add: ensure_RGBA_def convert_RGBA_def)

lemma size_ensure_RGBA: "size_wh (ensure_RGBA im) = size_wh im"
  by (simp add: ensure_RGBA_def convert_RGBA_def)

lemma holds_data_RGBA:
  "mode im = RGBA \<Longrightarrow> holds_data im x y \<longleftrightarrow> inside im x y \<and> alpha (px im x y) \<noteq> 0"
  by (cases "px im x y") (simp add: holds_data_def has_data_def alpha_def)

lemma crop_getbbox:
  assumes "getbbox im = Some (l, t, r, b)"
  shows "crop im (l, t, r, b) =
         Inr (im\<lparr>size_wh := (r - l, b - t),
                 px := (\<lambda>x y. if inside im (x + l) (y + t) then px im (x + l) (y + t)
                               else (0, 0, 0, 0))\<rparr>)"
  using getbbox_within [OF assms] by (simp add: crop_def)

lemma size_resize: "size_wh (resize k im sz flt) = sz"
  by (simp add: resize_def)

lemma mode_resize: "mode (resize k im sz flt) = mode im"
  by (simp add: resize_def)

lemma size_paste: "size_wh (paste dst src pos msk) = size_wh dst"
  by (simp add: paste_def case_prod_beta)

lemma mode_paste: "mode (paste dst src pos msk) = mode dst"
  by (simp add: paste_def case_prod_beta)

lemma px_paste_new:
  "px (paste (Image_new m (w, h) c) src (ox, oy) msk) x y =
     (if inside src (x - ox) (y - oy) \<and> 0 \<le> x \<and> x < w \<and> 0 \<le> y \<and> y < h
      then blend (alpha (px msk (x - ox) (y - oy))) c (px src (x - ox) (y - oy))
      else c)"
  by (simp add: paste_def Image_new_def inside_iff)

section \<open>The three ways through the function\<close>



lemma fix_content:
  assumes "Image_open (files w) ip = Inr img0"
    and "getbbox (ensure_RGBA img0) = Some bx"
  shows "\<exists>cropped. crop (ensure_RGBA img0) bx = Inr cropped \<and>
         fix_icon_padding e ip op w =
           (case Image_save (device e) (files w)
                   (paste (Image_new RGBA (target_size, target_size) (0, 0, 0, 0))
                      (resize (resample e) cropped (content_size, content_size) LANCZOS)
                      (margin, margin)
                      (resize (resample e) cropped (content_size, content_size) LANCZOS))
                   op PNG of
              (Some err, fs) \<Rightarrow> (Inl err, w\<lparr>files := fs\<rparr>)
            | (None, fs) \<Rightarrow>
                (Inr True, w\<lparr>files := fs,
                   stdout := stdout w @ [Icon_fixed op, Original_bounding_box bx,
                                         New_size target_size margin]\<rparr>))"
proof -
  obtain l t r b where bx: "bx = (l, t, r, b)" by (cases bx) auto
  from crop_getbbox [OF assms(2) [unfolded bx]] obtain cropped where
    c: "crop (ensure_RGBA img0) bx = Inr cropped" unfolding bx by blast
  show ?thesis
    using assms c by (simp add: fix_icon_padding_def Let_def)
qed

section \<open>Sample inputs\<close>

lemma mode_new: "mode (Image_new m sz c) = m"
  by (simp add: Image_new_def)

lemma size_new: "size_wh (Image_new m sz c) = sz"
  by (simp add: Image_new_def)

lemma holds_data_new:
  "holds_data (Image_new RGBA (w, h) c) x y \<longleftrightarrow>
     0 \<le> x \<and> x < w \<and> 0 \<le> y \<and> y < h \<and> alpha c \<noteq> 0"
  by (cases c) (auto simp: holds_data_def has_data_def alpha_def inside_iff Image_new_def)

lemma ensure_RGBA_id: "mode im = RGBA \<Longrightarrow> ensure_RGBA im = im"
  by (simp add: ensure_RGBA_def)

lemma getbbox_new:
  assumes "0 < w" "0 < h" "alpha c \<noteq> 0"
  shows "getbbox (Image_new RGBA (w, h) c) = Some (0, 0, w, h)"
proof (rule getbbox_eqI)
  show "holds_data (Image_new RGBA (w, h) c) 0 0" 
    and "holds_data (Image_new RGBA (w, h) c) (w - 1) 0"
    and "holds_data (Image_new RGBA (w, h) c) 0 0"
    and "holds_data (Image_new RGBA (w, h) c) 0 (h - 1)"
    using assms by (simp_all add: holds_data_new)
qed (simp add: holds_data_new)

lemma getbbox_dot: "getbbox dot = Some (0, 0, 1, 1)"
  unfolding dot_def by (rule getbbox_new [of 1 1, simplified]) (simp add: alpha_def)

lemma size_dot: "size_wh dot = (1, 1)"
  by (simp add: dot_def size_new)


lemma getbbox_blank: "getbbox blank = None"
  by (simp add: getbbox_None_iff blank_def holds_data_new alpha_def)

lemma open_icon_world: "Image_open (files (icon_world im)) input_file = Inr im"
  by (simp add: Image_open_def icon_world_def)

lemma files_icon_world: "files (icon_world im) = [input_file \<mapsto> Image_file PNG im]"
  by (simp add: icon_world_def)

lemma device_env_of: "device (env_of d) = d"
  by (simp add: env_of_def)


section \<open>A run whose write completes\<close>

lemma fix_completes:
  assumes "Image_open (files w) ip = Inr img0"
    and "getbbox (ensure_RGBA img0) = Some (l, t, r, b)"
    and "device e = Completes"
  shows "\<exists>cropped. crop (ensure_RGBA img0) (l, t, r, b) = Inr cropped \<and>
         size_wh cropped = (r - l, b - t) \<and>
         fix_icon_padding e ip op w =
           (Inr True,
            w\<lparr>files := (files w)(op \<mapsto> Image_file PNG
                   (paste (Image_new RGBA (target_size, target_size) (0, 0, 0, 0))
                      (resize (resample e) cropped (content_size, content_size) LANCZOS)
                      (margin, margin)
                      (resize (resample e) cropped (content_size, content_size) LANCZOS))),
              stdout := stdout w @ [Icon_fixed op, Original_bounding_box (l, t, r, b),
                                    New_size target_size margin]\<rparr>)"
proof -
  from fix_content [OF assms(1,2), of e op] obtain cropped where
    c: "crop (ensure_RGBA img0) (l, t, r, b) = Inr cropped"
    and f: "fix_icon_padding e ip op w =
           (case Image_save (device e) (files w)
                   (paste (Image_new RGBA (target_size, target_size) (0, 0, 0, 0))
                      (resize (resample e) cropped (content_size, content_size) LANCZOS)
                      (margin, margin)
                      (resize (resample e) cropped (content_size, content_size) LANCZOS))
                   op PNG of
              (Some err, fs) \<Rightarrow> (Inl err, w\<lparr>files := fs\<rparr>)
            | (None, fs) \<Rightarrow>
                (Inr True, w\<lparr>files := fs,
                   stdout := stdout w @ [Icon_fixed op, Original_bounding_box (l, t, r, b),
                                         New_size target_size margin]\<rparr>))"
    by blast
  from c crop_getbbox [OF assms(2)] have "size_wh cropped = (r - l, b - t)" by auto
  with c f show ?thesis by (simp add: assms(3) Image_save_def)
qed

lemma px_final:
  assumes "size_wh R = (content_size, content_size)"
  shows "px (paste (Image_new RGBA (target_size, target_size) (0, 0, 0, 0)) R
               (margin, margin) R) x y =
         (if margin \<le> x \<and> x < margin + content_size \<and> margin \<le> y \<and> y < margin + content_size
          then blend (alpha (px R (x - margin) (y - margin))) (0, 0, 0, 0)
                 (px R (x - margin) (y - margin))
          else (0, 0, 0, 0))"
  by (auto simp: px_paste_new inside_iff assms content_size_val margin_val target_size_def)

lemma main_completes:
  assumes "fix_icon_padding e input_file output_file w = (Inr True, w')"
  shows "main e w = (0, w')"
  by (simp add: main_def assms)

lemma saved_upd: "saved (w\<lparr>files := (fs(p \<mapsto> Image_file f im)), stdout := out\<rparr>) p = Some im"
  by (simp add: saved_def)

lemma size_scenario: "size_wh scenario = (512, 512)"
  by (simp add: scenario_def size_new)

lemma mode_scenario: "mode scenario = RGBA"
  by (simp add: scenario_def mode_new)

lemma alpha_scenario:
  "alpha (px scenario x y) = (if 100 \<le> x \<and> x < 400 \<and> 100 \<le> y \<and> y < 400 then 255 else 0)"
  by (simp add: scenario_def alpha_def)

lemma ensure_scenario: "ensure_RGBA scenario = scenario"
  by (simp add: ensure_RGBA_id mode_scenario)

lemma getbbox_box:
  assumes "mode im = RGBA" and "size_wh im = (w, h)"
    and "0 \<le> l" "l < r" "r \<le> w" "0 \<le> t" "t < b" "b \<le> h"
    and "\<forall>x y. inside im x y \<longrightarrow>
           (alpha (px im x y) \<noteq> 0 \<longleftrightarrow> l \<le> x \<and> x < r \<and> t \<le> y \<and> y < b)"
  shows "getbbox im = Some (l, t, r, b)"
proof -
  have h: "holds_data im x y \<longleftrightarrow> l \<le> x \<and> x < r \<and> t \<le> y \<and> y < b" for x y
  proof (cases "inside im x y")
    case True
    with assms(1,9) show ?thesis by (simp add: holds_data_RGBA)
  next
    case False
    with assms(2-8) show ?thesis by (auto simp: holds_data_def inside_iff)
  qed
  show ?thesis
    by (rule getbbox_eqI [where yl = t and yr = t and xt = l and xb = l])
       (use assms(3-8) in \<open>simp_all add: h\<close>)
qed

lemma getbbox_scenario: "getbbox scenario = Some (100, 100, 400, 400)"
  by (rule getbbox_box [OF mode_scenario size_scenario]) (simp_all add: alpha_scenario)

text \<open>
  Were the opaque pixels those with \<open>100 \<le> x \<le> 400\<close>, the pixel at 400 included, the box
  would be one wider: the right and lower edges of a box lie one past the last pixel.
\<close>

lemma getbbox_edges_exclusive:
  assumes "mode im = RGBA" and "size_wh im = (512, 512)"
    and "\<forall>x y. inside im x y \<longrightarrow>
           (alpha (px im x y) \<noteq> 0 \<longleftrightarrow> 100 \<le> x \<and> x \<le> 400 \<and> 100 \<le> y \<and> y \<le> 400)"
  shows "getbbox im = Some (100, 100, 401, 401)"
  by (rule getbbox_box [OF assms(1,2)]) (use assms(3) in auto)

section \<open>The image a successful run saves\<close>

lemma fix_True_cases:
  assumes "fix_icon_padding e ip op w = (Inr True, w')"
  shows "\<exists>img0 bx cropped.
           Image_open (files w) ip = Inr img0 \<and>
           getbbox (ensure_RGBA img0) = Some bx \<and>
           crop (ensure_RGBA img0) bx = Inr cropped \<and>
           device e = Completes \<and>
           w' = w\<lparr>files := (files w)(op \<mapsto> Image_file PNG
                   (paste (Image_new RGBA (target_size, target_size) (0, 0, 0, 0))
                      (resize (resample e) cropped (content_size, content_size) LANCZOS)
                      (margin, margin)
                      (resize (resample e) cropped (content_size, content_size) LANCZOS))),
                  stdout := stdout w @ [Icon_fixed op, Original_bounding_box bx,
                                        New_size target_size margin]\<rparr>"
  using assms
  by (auto simp: fix_icon_padding_def Let_def Image_save_def
      split: sum.splits option.splits write_outcome.splits if_splits)

lemma alpha_blend: "alpha (blend m (r, g, b, a) p) = blend8 m a (alpha p)"
  by (cases p) (simp add: blend_def alpha_def)

lemma alpha_zero: "alpha (0, 0, 0, 0) = 0"
  by (simp add: alpha_def)

lemma blend8_zero: "blend8 0 0 0 = 0"
  by (simp add: blend8_def div255_def)

lemma holds_data_final:
  assumes "size_wh R = (content_size, content_size)"
  shows "holds_data (paste (Image_new RGBA (target_size, target_size) (0, 0, 0, 0)) R
                       (margin, margin) R) x y \<longleftrightarrow>
         margin \<le> x \<and> x < margin + content_size \<and> margin \<le> y \<and> y < margin + content_size \<and>
         blend8 (alpha (px R (x - margin) (y - margin))) 0
           (alpha (px R (x - margin) (y - margin))) \<noteq> 0"
proof -
  let ?out = "paste (Image_new RGBA (target_size, target_size) (0, 0, 0, 0)) R (margin, margin) R"
  have m: "mode ?out = RGBA" by (simp add: mode_paste mode_new)
  have s: "size_wh ?out = (target_size, target_size)" by (simp add: size_paste size_new)
  have i: "inside ?out x y \<longleftrightarrow> 0 \<le> x \<and> x < 1024 \<and> 0 \<le> y \<and> y < 1024"
    unfolding inside_iff s by (simp add: target_size_def)
  have a: "alpha (px ?out x y) =
      (if margin \<le> x \<and> x < margin + content_size \<and> margin \<le> y \<and> y < margin + content_size
       then blend8 (alpha (px R (x - margin) (y - margin))) 0
              (alpha (px R (x - margin) (y - margin)))
       else 0)"
    by (simp add: px_final [OF assms] alpha_blend alpha_zero)
  show ?thesis
    unfolding holds_data_RGBA [OF m] i a
    by (auto simp: content_size_val margin_val)
qed

lemma getbbox_final:
  assumes "size_wh R = (content_size, content_size)"
    and "\<forall>x y. inside R x y \<longrightarrow> blend8 (alpha (px R x y)) 0 (alpha (px R x y)) \<noteq> 0"
  shows "getbbox (paste (Image_new RGBA (target_size, target_size) (0, 0, 0, 0)) R
                    (margin, margin) R) = Some (51, 51, 972, 972)"
proof -
  let ?out = "paste (Image_new RGBA (target_size, target_size) (0, 0, 0, 0)) R (margin, margin) R"
  have h: "holds_data ?out x y \<longleftrightarrow> 51 \<le> x \<and> x < 972 \<and> 51 \<le> y \<and> y < 972" for x y
    unfolding holds_data_final [OF assms(1)]
    using assms(2) [rule_format, of "x - margin" "y - margin"]
    by (auto simp: inside_iff assms(1) content_size_val margin_val)
  show ?thesis
    by (rule getbbox_eqI [where yl = 51 and yr = 51 and xt = 51 and xb = 51]) (simp_all add: h)
qed

lemma blend8_opaque: "blend8 255 0 255 = 255"
  by (simp add: blend8_def div255_def)

lemma crop_dot:
  "crop dot (0, 0, 1, 1) =
     Inr (dot\<lparr>size_wh := (1, 1),
             px := (\<lambda>x y. if inside dot (x + 0) (y + 0) then px dot (x + 0) (y + 0)
                           else (0, 0, 0, 0))\<rparr>)"
  by (rule crop_getbbox [OF getbbox_dot, simplified diff_0_right])

lemma ensure_dot: "ensure_RGBA dot = dot"
  by (simp add: ensure_RGBA_id dot_def mode_new)

lemma resized_dot_opaque:
  assumes "crop dot (0, 0, 1, 1) = Inr cropped"
    and "inside (resize nearest cropped (content_size, content_size) LANCZOS) x y"
  shows "alpha (px (resize nearest cropped (content_size, content_size) LANCZOS) x y) = 255"
proof -
  from assms(2) have b: "0 \<le> x" "x < 921" "0 \<le> y" "y < 921"
    by (simp_all add: inside_iff size_resize content_size_val)
  then have d: "x div 921 = 0" "y div 921 = 0" by simp_all
  from assms(1) have c: "size_wh cropped = (1, 1)" "px cropped 0 0 = (255, 255, 255, 255)"
    unfolding crop_dot by (auto simp: dot_def Image_new_def inside_iff)
  show ?thesis
    by (simp add: resize_def c content_size_val nearest_def d alpha_def)
qed

lemma run_dot:
  "\<exists>R. size_wh R = (content_size, content_size) \<and>
       (\<forall>x y. inside R x y \<longrightarrow> alpha (px R x y) = 255) \<and>
       fix_icon_padding (env_of Completes) input_file output_file (icon_world dot) =
         (Inr True,
          (icon_world dot)\<lparr>files := (files (icon_world dot))(output_file \<mapsto> Image_file PNG
              (paste (Image_new RGBA (target_size, target_size) (0, 0, 0, 0)) R
                 (margin, margin) R)),
            stdout := stdout (icon_world dot) @
              [Icon_fixed output_file, Original_bounding_box (0, 0, 1, 1),
               New_size target_size margin]\<rparr>)"
proof -
  have g: "getbbox (ensure_RGBA dot) = Some (0, 0, 1, 1)"
    by (simp add: ensure_dot getbbox_dot)
  from fix_completes [OF open_icon_world g device_env_of, of output_file]
  obtain cropped where c: "crop dot (0, 0, 1, 1) = Inr cropped"
    and f: "fix_icon_padding (env_of Completes) input_file output_file (icon_world dot) =
         (Inr True,
          (icon_world dot)\<lparr>files := (files (icon_world dot))(output_file \<mapsto> Image_file PNG
              (paste (Image_new RGBA (target_size, target_size) (0, 0, 0, 0))
                 (resize nearest cropped (content_size, content_size) LANCZOS)
                 (margin, margin)
                 (resize nearest cropped (content_size, content_size) LANCZOS))),
            stdout := stdout (icon_world dot) @
              [Icon_fixed output_file, Original_bounding_box (0, 0, 1, 1),
               New_size target_size margin]\<rparr>)"
    by (auto simp: ensure_dot env_of_def)
  show ?thesis
    by (rule exI [of _ "resize nearest cropped (content_size, content_size) LANCZOS"])
       (simp add: f size_resize resized_dot_opaque [OF c])
qed

lemma margins_final:
  assumes "size_wh R = (content_size, content_size)"
    and "\<forall>x y. inside R x y \<longrightarrow> blend8 (alpha (px R x y)) 0 (alpha (px R x y)) \<noteq> 0"
  shows "margins (paste (Image_new RGBA (target_size, target_size) (0, 0, 0, 0)) R
                    (margin, margin) R) = Some (51, 51, 52, 52)"
  unfolding margins_def getbbox_final [OF assms] size_paste size_new
  by (simp add: target_size_def)

section \<open>What a call leaves in the files\<close>

lemma Image_save_cases:
  "Image_save d fs im p f = (None, fs') \<Longrightarrow> d = Completes \<and> fs' = fs(p \<mapsto> Image_file f im)"
  "Image_save d fs im p f = (Some err, fs') \<Longrightarrow>
     (d = Refused \<and> fs' = fs) \<or>
     (d = Fails_midway \<and> fs' = fs(p \<mapsto> Damaged))"
  by (cases d; auto simp: Image_save_def)+






section \<open>Running the program on its own output\<close>

lemma rerun:
  assumes R: "size_wh R = (content_size, content_size)"
    and v: "\<forall>x y. inside R x y \<longrightarrow> blend8 (alpha (px R x y)) 0 (alpha (px R x y)) \<noteq> 0"
    and o: "Image_open (files w) ip =
              Inr (paste (Image_new RGBA (target_size, target_size) (0, 0, 0, 0)) R
                     (margin, margin) R)"
    and d: "device e = Completes"
  shows "\<exists>R2. size_wh R2 = (content_size, content_size) \<and>
           (\<forall>x y. inside R2 x y \<longrightarrow>
              px R2 x y = px (paste (Image_new RGBA (target_size, target_size) (0, 0, 0, 0)) R
                                (margin, margin) R) (x + 51) (y + 51)) \<and>
           fix_icon_padding e ip op w =
             (Inr True,
              w\<lparr>files := (files w)(op \<mapsto> Image_file PNG
                     (paste (Image_new RGBA (target_size, target_size) (0, 0, 0, 0)) R2
                        (margin, margin) R2)),
                stdout := stdout w @ [Icon_fixed op, Original_bounding_box (51, 51, 972, 972),
                                      New_size target_size margin]\<rparr>)"
proof -
  let ?out = "paste (Image_new RGBA (target_size, target_size) (0, 0, 0, 0)) R (margin, margin) R"
  have m: "mode ?out = RGBA" by (simp add: mode_paste mode_new)
  have s: "size_wh ?out = (1024, 1024)" by (simp add: size_paste size_new target_size_def)
  have g: "getbbox (ensure_RGBA ?out) = Some (51, 51, 972, 972)"
    unfolding ensure_RGBA_id [OF m] by (rule getbbox_final [OF R v])
  from fix_completes [OF o g d, of op] obtain cropped where
    c: "crop (ensure_RGBA ?out) (51, 51, 972, 972) = Inr cropped"
    and sz: "size_wh cropped = (972 - 51, 972 - 51)"
    and f: "fix_icon_padding e ip op w =
           (Inr True,
            w\<lparr>files := (files w)(op \<mapsto> Image_file PNG
                   (paste (Image_new RGBA (target_size, target_size) (0, 0, 0, 0))
                      (resize (resample e) cropped (content_size, content_size) LANCZOS)
                      (margin, margin)
                      (resize (resample e) cropped (content_size, content_size) LANCZOS))),
              stdout := stdout w @ [Icon_fixed op, Original_bounding_box (51, 51, 972, 972),
                                    New_size target_size margin]\<rparr>)"
    by blast
  from sz have sz': "size_wh cropped = (content_size, content_size)"
    by (simp add: content_size_val)
  then have r: "resize (resample e) cropped (content_size, content_size) LANCZOS = cropped"
    by (simp add: resize_def)
  have p: "px cropped x y = px ?out (x + 51) (y + 51)" if "inside cropped x y" for x y
  proof -
    from that have "inside ?out (x + 51) (y + 51)"
      by (simp add: inside_iff sz' s content_size_val)
    with c crop_getbbox [OF g] show ?thesis
      unfolding ensure_RGBA_id [OF m] by auto
  qed
  show ?thesis
    by (rule exI [of _ cropped]) (use sz' p f r in simp)
qed

lemma getbbox_veil: "getbbox veil = Some (0, 0, 921, 921)"
  unfolding veil_def by (rule getbbox_new) (simp_all add: alpha_def)

lemma ensure_veil: "ensure_RGBA veil = veil"
  by (simp add: ensure_RGBA_id veil_def mode_new)

lemma run_veil:
  assumes "device e = Completes"
  shows "\<exists>R. size_wh R = (content_size, content_size) \<and>
           (\<forall>x y. inside R x y \<longrightarrow> px R x y = (0, 0, 0, 128)) \<and>
           fix_icon_padding e input_file output_file (icon_world veil) =
             (Inr True,
              (icon_world veil)\<lparr>files := (files (icon_world veil))(output_file \<mapsto> Image_file PNG
                     (paste (Image_new RGBA (target_size, target_size) (0, 0, 0, 0)) R
                        (margin, margin) R)),
                stdout := stdout (icon_world veil) @
                  [Icon_fixed output_file, Original_bounding_box (0, 0, 921, 921),
                   New_size target_size margin]\<rparr>)"
proof -
  have g: "getbbox (ensure_RGBA veil) = Some (0, 0, 921, 921)"
    by (simp add: ensure_veil getbbox_veil)
  from fix_completes [OF open_icon_world g assms, of output_file] obtain cropped where
    c: "crop (ensure_RGBA veil) (0, 0, 921, 921) = Inr cropped"
    and sz: "size_wh cropped = (921 - 0, 921 - 0)"
    and f: "fix_icon_padding e input_file output_file (icon_world veil) =
             (Inr True,
              (icon_world veil)\<lparr>files := (files (icon_world veil))(output_file \<mapsto> Image_file PNG
                   (paste (Image_new RGBA (target_size, target_size) (0, 0, 0, 0))
                      (resize (resample e) cropped (content_size, content_size) LANCZOS)
                      (margin, margin)
                      (resize (resample e) cropped (content_size, content_size) LANCZOS))),
                stdout := stdout (icon_world veil) @
                  [Icon_fixed output_file, Original_bounding_box (0, 0, 921, 921),
                   New_size target_size margin]\<rparr>)"
    by blast
  from sz have sz': "size_wh cropped = (content_size, content_size)"
    by (simp add: content_size_val)
  then have r: "resize (resample e) cropped (content_size, content_size) LANCZOS = cropped"
    by (simp add: resize_def)
  have p: "px cropped x y = (0, 0, 0, 128)" if "inside cropped x y" for x y
  proof -
    from that have "inside veil (x + 0) (y + 0)"
      by (simp add: inside_iff sz' veil_def size_new content_size_val)
    with c crop_getbbox [OF g] show ?thesis
      unfolding ensure_veil by (auto simp: veil_def Image_new_def)
  qed
  show ?thesis
    by (rule exI [of _ cropped]) (use sz' p f r in simp)
qed

lemma blend_veil:
  "blend 128 (0, 0, 0, 0) (0, 0, 0, 128) = (0, 0, 0, 64)"
  "blend 64 (0, 0, 0, 0) (0, 0, 0, 64) = (0, 0, 0, 16)"
  by (simp_all add: blend_def blend8_def div255_def)

lemma open_after_save:
  "Image_open ((fs(output_file \<mapsto> Image_file f im))) input_file = Inr im"
  by (simp add: Image_open_def input_file_def output_file_def)

lemma div255_exact: "n < 256 \<Longrightarrow> div255 (n * 255) = n"
  unfolding div255_def Let_def by arith

lemma blend8_255: "blend8 255 out inp = inp"
proof -
  have "unat inp < 2 ^ LENGTH(8)" by (rule unsigned_less)
  then have "unat inp < 256" by simp
  then show ?thesis by (simp add: blend8_def div255_exact)
qed

lemma blend_255: "blend 255 out p = p"
  by (cases out, cases p) (simp add: blend_def blend8_255)

text \<open>
  Where the first run's pasted content is opaque throughout, the second run writes the
  image the first run wrote: the program is idempotent on such outputs.
\<close>

lemma rerun_opaque:
  assumes R: "size_wh R = (content_size, content_size)"
    and a: "\<forall>x y. inside R x y \<longrightarrow> alpha (px R x y) = 255"
    and o: "Image_open (files w) ip =
              Inr (paste (Image_new RGBA (target_size, target_size) (0, 0, 0, 0)) R
                     (margin, margin) R)"
    and d: "device e = Completes"
  shows "fst (fix_icon_padding e ip op w) = Inr True \<and>
         saved (snd (fix_icon_padding e ip op w)) op =
           Some (paste (Image_new RGBA (target_size, target_size) (0, 0, 0, 0)) R
                   (margin, margin) R)"
proof -
  let ?c = "Image_new RGBA (target_size, target_size) (0, 0, 0, 0)"
  let ?out = "paste ?c R (margin, margin) R"
  have v: "\<forall>x y. inside R x y \<longrightarrow> blend8 (alpha (px R x y)) 0 (alpha (px R x y)) \<noteq> 0"
    using a by (simp add: blend8_255)
  from rerun [OF R v o d, of op] obtain R2 where
    R2: "size_wh R2 = (content_size, content_size)"
    and p2: "\<forall>x y. inside R2 x y \<longrightarrow> px R2 x y = px ?out (x + 51) (y + 51)"
    and f: "fst (fix_icon_padding e ip op w) = Inr True"
    and s: "saved (snd (fix_icon_padding e ip op w)) op = Some (paste ?c R2 (margin, margin) R2)"
    by (auto simp: saved_def)
  have "px (paste ?c R2 (margin, margin) R2) x y = px ?out x y" for x y
  proof (cases "margin \<le> x \<and> x < margin + content_size \<and>
                margin \<le> y \<and> y < margin + content_size")
    case True
    then have i: "inside R (x - margin) (y - margin)" "inside R2 (x - margin) (y - margin)"
      by (simp_all add: inside_iff R R2)
    from a i(1) have o1: "px ?out x y = px R (x - margin) (y - margin)"
      unfolding px_final [OF R] using True by (simp add: blend_255)
    from p2 i(2) have "px R2 (x - margin) (y - margin) = px ?out x y"
      by (simp add: margin_val)
    with a i(1) o1 show ?thesis
      unfolding px_final [OF R2] using True by (simp add: blend_255)
  next
    case False
    show ?thesis
      unfolding px_final [OF R] px_final [OF R2] by (simp only: False if_False)
  qed
  then have "px (paste ?c R2 (margin, margin) R2) = px ?out" by (intro ext)
  then have "paste ?c R2 (margin, margin) R2 = ?out"
    by (simp add: paste_def)
  with f s show ?thesis by simp
qed

section \<open>The mix, written out\<close>

lemma blend8_onto_zero:
  "blend8 m 0 c = word_of_nat (((unat c * unat m + 128) div 256 + (unat c * unat m + 128)) div 256)"
  by (simp add: blend8_def div255_def Let_def)

lemma px_final_explicit:
  assumes "size_wh R = (content_size, content_size)"
  shows "px (paste (Image_new RGBA (target_size, target_size) (0, 0, 0, 0)) R
               (margin, margin) R) x y =
         (if 51 \<le> x \<and> x < 972 \<and> 51 \<le> y \<and> y < 972
          then (case px R (x - 51) (y - 51) of (r, g, b, a) \<Rightarrow>
            (word_of_nat (((unat r * unat a + 128) div 256 + (unat r * unat a + 128)) div 256),
             word_of_nat (((unat g * unat a + 128) div 256 + (unat g * unat a + 128)) div 256),
             word_of_nat (((unat b * unat a + 128) div 256 + (unat b * unat a + 128)) div 256),
             word_of_nat (((unat a * unat a + 128) div 256 + (unat a * unat a + 128)) div 256)))
          else (0, 0, 0, 0))"
proof (cases "px R (x - 51) (y - 51)")
  case (fields r g b a)
  show ?thesis
    unfolding px_final [OF assms]
    by (simp add: content_size_val margin_val fields blend_def alpha_def blend8_onto_zero)
qed

lemma div255_bounds:
  "m \<le> 121 \<Longrightarrow> div255 m = 0"
  "144 \<le> m \<Longrightarrow> m \<le> 65025 \<Longrightarrow> 1 \<le> div255 m \<and> div255 m \<le> 255"
  unfolding div255_def Let_def by arith+

lemma blend8_self_visible: "blend8 a 0 a \<noteq> 0 \<longleftrightarrow> 12 \<le> unat a"
proof -
  have "unat a < 2 ^ LENGTH(8)" by (rule unsigned_less)
  then have n: "unat a < 256" by simp
  show ?thesis
  proof (cases "12 \<le> unat a")
    case True
    then have "12 * 12 \<le> unat a * unat a" by (intro mult_le_mono)
    moreover from n have "unat a * unat a \<le> 255 * 255" by (intro mult_le_mono) simp_all
    ultimately have "1 \<le> div255 (unat a * unat a)" "div255 (unat a * unat a) \<le> 255"
      using div255_bounds(2) [of "unat a * unat a"] by simp_all
    then have "unat (word_of_nat (div255 (unat a * unat a)) :: byte) = div255 (unat a * unat a)"
      by (simp add: unat_of_nat)
    with \<open>1 \<le> div255 (unat a * unat a)\<close>
    have "(word_of_nat (div255 (unat a * unat a)) :: byte) \<noteq> 0"
      by auto
    with True show ?thesis by (simp add: blend8_def)
  next
    case False
    then have "unat a \<le> 11" by simp
    then have "unat a * unat a \<le> 11 * 11" by (intro mult_le_mono)
    then have "div255 (unat a * unat a) = 0" by (intro div255_bounds(1)) simp
    with False show ?thesis by (simp add: blend8_def)
  qed
qed

lemma holds_data_final_visible:
  assumes "size_wh R = (content_size, content_size)"
  shows "holds_data (paste (Image_new RGBA (target_size, target_size) (0, 0, 0, 0)) R
                       (margin, margin) R) x y \<longleftrightarrow>
         51 \<le> x \<and> x < 972 \<and> 51 \<le> y \<and> y < 972 \<and>
         12 \<le> unat (alpha (px R (x - 51) (y - 51)))"
  unfolding holds_data_final [OF assms] blend8_self_visible
  by (simp add: content_size_val margin_val)

lemma getbbox_final_edges:
  assumes R: "size_wh R = (content_size, content_size)"
    and "0 \<le> yl" "yl < 921" "12 \<le> unat (alpha (px R 0 yl))"
    and "0 \<le> yr" "yr < 921" "12 \<le> unat (alpha (px R 920 yr))"
    and "0 \<le> xt" "xt < 921" "12 \<le> unat (alpha (px R xt 0))"
    and "0 \<le> xb" "xb < 921" "12 \<le> unat (alpha (px R xb 920))"
  shows "getbbox (paste (Image_new RGBA (target_size, target_size) (0, 0, 0, 0)) R
                    (margin, margin) R) = Some (51, 51, 972, 972)"
  by (rule getbbox_eqI [where yl = "yl + 51" and yr = "yr + 51"
        and xt = "xt + 51" and xb = "xb + 51"])
     (use assms(2-) in \<open>simp_all add: holds_data_final_visible [OF R]\<close>)

lemma margins_of_box:
  "getbbox im = Some (51, 51, 972, 972) \<Longrightarrow> size_wh im = (1024, 1024) \<Longrightarrow>
   margins im = Some (51, 51, 52, 52) \<and> \<not> equal_margins im"
  by (simp add: margins_def equal_margins_def)

lemma size_final:
  "size_wh (paste (Image_new RGBA (target_size, target_size) (0, 0, 0, 0)) R pos msk) =
     (1024, 1024)"
  by (simp add: size_paste size_new target_size_def)

lemma mode_final:
  "mode (paste (Image_new RGBA (target_size, target_size) (0, 0, 0, 0)) R pos msk) = RGBA"
  by (simp add: mode_paste mode_new)

lemma px_crop:
  assumes g: "getbbox im = Some (l, t, r, b)" and c: "crop im (l, t, r, b) = Inr cropped"
    and "0 \<le> x" "x < r - l" "0 \<le> y" "y < b - t"
  shows "px cropped x y = px im (x + l) (y + t)"
proof -
  from getbbox_within [OF g] assms(3-) have "inside im (x + l) (y + t)"
    by (simp add: inside_iff)
  with c crop_getbbox [OF g] show ?thesis by auto
qed

lemma mode_crop:
  assumes g: "getbbox im = Some (l, t, r, b)" and c: "crop im (l, t, r, b) = Inr cropped"
  shows "mode cropped = mode im"
  using c crop_getbbox [OF g] by auto

lemma px_resize:
  "size_wh im \<noteq> sz \<Longrightarrow> px (resize k im sz flt) = k flt im sz"
  "size_wh im = sz \<Longrightarrow> px (resize k im sz flt) = px im"
  by (simp_all add: resize_def)

lemma mode_bar: "mode bar = RGBA"
  by (simp add: bar_def mode_new)

lemma size_bar: "size_wh bar = (4, 2)"
  by (simp add: bar_def size_new)

lemma px_bar: "px bar x y = (if x < 2 then (255, 255, 255, 255) else (200, 100, 50, 128))"
  by (simp add: bar_def)

lemma getbbox_bar: "getbbox bar = Some (0, 0, 4, 2)"
  by (rule getbbox_box [OF mode_bar size_bar]) (simp_all add: px_bar alpha_def inside_iff size_bar)

lemma ensure_bar: "ensure_RGBA bar = bar"
  by (simp add: ensure_RGBA_id mode_bar)

lemma px_final_opaque:
  assumes "size_wh R = (content_size, content_size)"
    and "51 \<le> x" "x < 972" "51 \<le> y" "y < 972"
    and "alpha (px R (x - 51) (y - 51)) = 255"
  shows "px (paste (Image_new RGBA (target_size, target_size) (0, 0, 0, 0)) R
               (margin, margin) R) x y = px R (x - 51) (y - 51)"
  unfolding px_final [OF assms(1)] using assms(2-)
  by (simp add: content_size_val margin_val blend_255)

section \<open>Where the saved image is visible\<close>

lemma alpha_final_visible:
  assumes "size_wh R = (content_size, content_size)"
  shows "alpha (px (paste (Image_new RGBA (target_size, target_size) (0, 0, 0, 0)) R
                      (margin, margin) R) x y) \<noteq> 0 \<longleftrightarrow>
         51 \<le> x \<and> x < 972 \<and> 51 \<le> y \<and> y < 972 \<and>
         12 \<le> unat (alpha (px R (x - 51) (y - 51)))"
proof (cases "51 \<le> x \<and> x < 972 \<and> 51 \<le> y \<and> y < 972")
  case True
  then show ?thesis
    unfolding px_final [OF assms]
    by (simp add: content_size_val margin_val alpha_blend blend8_self_visible)
next
  case False
  then show ?thesis
    unfolding px_final [OF assms]
    by (auto simp: content_size_val margin_val alpha_zero)
qed

lemma getbbox_final_iff:
  assumes R: "size_wh R = (content_size, content_size)"
  shows "getbbox (paste (Image_new RGBA (target_size, target_size) (0, 0, 0, 0)) R
                    (margin, margin) R) = Some (51, 51, 972, 972) \<longleftrightarrow>
         (\<exists>y. 0 \<le> y \<and> y < 921 \<and> 12 \<le> unat (alpha (px R 0 y))) \<and>
         (\<exists>y. 0 \<le> y \<and> y < 921 \<and> 12 \<le> unat (alpha (px R 920 y))) \<and>
         (\<exists>x. 0 \<le> x \<and> x < 921 \<and> 12 \<le> unat (alpha (px R x 0))) \<and>
         (\<exists>x. 0 \<le> x \<and> x < 921 \<and> 12 \<le> unat (alpha (px R x 920)))"
    (is "?g = Some _ \<longleftrightarrow> ?edges")
proof
  assume "?g = Some (51, 51, 972, 972)"
  from getbbox_Some_touches [OF this] obtain yl yr xt xb where
    "51 \<le> yl \<and> yl < 972 \<and> 12 \<le> unat (alpha (px R 0 (yl - 51)))"
    "51 \<le> yr \<and> yr < 972 \<and> 12 \<le> unat (alpha (px R 920 (yr - 51)))"
    "51 \<le> xt \<and> xt < 972 \<and> 12 \<le> unat (alpha (px R (xt - 51) 0))"
    "51 \<le> xb \<and> xb < 972 \<and> 12 \<le> unat (alpha (px R (xb - 51) 920))"
    by (auto simp: holds_data_final_visible [OF R])
  then show ?edges
    by (intro conjI exI [of _ "yl - 51"] exI [of _ "yr - 51"] exI [of _ "xt - 51"]
          exI [of _ "xb - 51"]) simp_all
next
  assume ?edges
  then obtain yl yr xt xb where
    "0 \<le> yl" "yl < 921" "12 \<le> unat (alpha (px R 0 yl))"
    "0 \<le> yr" "yr < 921" "12 \<le> unat (alpha (px R 920 yr))"
    "0 \<le> xt" "xt < 921" "12 \<le> unat (alpha (px R xt 0))"
    "0 \<le> xb" "xb < 921" "12 \<le> unat (alpha (px R xb 920))"
    by blast
  then show "?g = Some (51, 51, 972, 972)"
    by (rule getbbox_final_edges [OF R])
qed

lemma getbbox_final_inside:
  assumes R: "size_wh R = (content_size, content_size)"
    and g: "getbbox (paste (Image_new RGBA (target_size, target_size) (0, 0, 0, 0)) R
                    (margin, margin) R) = Some (l, t, r, b)"
  shows "51 \<le> l \<and> 51 \<le> t \<and> r \<le> 972 \<and> b \<le> 972"
  by (rule getbbox_least [OF g]) (simp add: holds_data_final_visible [OF R])

lemma run_faint:
  "\<exists>R. size_wh R = (content_size, content_size) \<and>
       (\<forall>x y. inside R x y \<longrightarrow> px R x y = (0, 0, 0, 11)) \<and>
       fix_icon_padding (env_of Completes) input_file output_file (icon_world faint) =
         (Inr True,
          (icon_world faint)\<lparr>files := (files (icon_world faint))(output_file \<mapsto> Image_file PNG
              (paste (Image_new RGBA (target_size, target_size) (0, 0, 0, 0)) R
                 (margin, margin) R)),
            stdout := stdout (icon_world faint) @
              [Icon_fixed output_file, Original_bounding_box (0, 0, 921, 921),
               New_size target_size margin]\<rparr>)"
proof -
  have e: "ensure_RGBA faint = faint"
    by (simp add: ensure_RGBA_id faint_def mode_new)
  have g0: "getbbox faint = Some (0, 0, 921, 921)"
    unfolding faint_def by (rule getbbox_new) (simp_all add: alpha_def)
  then have g: "getbbox (ensure_RGBA faint) = Some (0, 0, 921, 921)" by (simp add: e)
  from fix_completes [OF open_icon_world g device_env_of, of output_file] obtain cropped where
    c: "crop faint (0, 0, 921, 921) = Inr cropped"
    and sz: "size_wh cropped = (921 - 0, 921 - 0)"
    and f: "fix_icon_padding (env_of Completes) input_file output_file (icon_world faint) =
         (Inr True,
          (icon_world faint)\<lparr>files := (files (icon_world faint))(output_file \<mapsto> Image_file PNG
              (paste (Image_new RGBA (target_size, target_size) (0, 0, 0, 0))
                 (resize (resample (env_of Completes)) cropped (content_size, content_size) LANCZOS)
                 (margin, margin)
                 (resize (resample (env_of Completes)) cropped (content_size, content_size) LANCZOS))),
            stdout := stdout (icon_world faint) @
              [Icon_fixed output_file, Original_bounding_box (0, 0, 921, 921),
               New_size target_size margin]\<rparr>)"
    by (auto simp: e)
  from sz have sz': "size_wh cropped = (content_size, content_size)"
    by (simp add: content_size_val)
  then have r: "resize (resample (env_of Completes)) cropped (content_size, content_size) LANCZOS
                  = cropped"
    by (simp add: resize_def)
  have p: "px cropped x y = (0, 0, 0, 11)" if "inside cropped x y" for x y
  proof -
    from that have "0 \<le> x" "x < 921 - 0" "0 \<le> y" "y < 921 - 0"
      by (simp_all add: inside_iff sz)
    from px_crop [OF g0 c this] show ?thesis by (simp add: faint_def Image_new_def)
  qed
  show ?thesis
    by (rule exI [of _ cropped]) (use sz' p f r in simp)
qed


section \<open>The claims\<close>

text \<open>
  C5. With the fixed target size 1024, the content size the program computes is
  \<open>floor (1024 * 0.90) = 921\<close>, both for the float the program multiplies by and for the
  decimal fraction nine tenths, and the paste margin is \<open>floor ((1024 - 921) / 2) = 51\<close>.
\<close>

theorem content_size_and_margin:
  "target_size = 1024 \<and> content_size = 921 \<and>
   content_size = \<lfloor>(1024 :: rat) * (90 / 100)\<rfloor> \<and>
   margin = 51 \<and> margin = (1024 - 921) div 2"
  by (simp add: content_size_val margin_val target_size_def floor_eq_iff)

text \<open>
  C10. The paste region lies inside the canvas: the margin is not negative and margin plus
  content size is 972, at most 1024, so every pixel of a pasted image of the content size,
  placed at (margin, margin), is a pixel of a canvas of the target size. The box that
  \<open>getbbox\<close> returns lies inside the image it was computed from, and is not empty.
\<close>

theorem paste_and_crop_stay_inside:
  "(0 \<le> margin \<and> margin + content_size = 972 \<and> margin + content_size \<le> target_size) \<and>
   (size_wh src = (content_size, content_size) \<longrightarrow>
    size_wh dst = (target_size, target_size) \<longrightarrow>
    inside src (x - margin) (y - margin) \<longrightarrow> inside dst x y) \<and>
   (getbbox im = Some (l, t, r, b) \<longrightarrow>
    0 \<le> l \<and> l < r \<and> r \<le> fst (size_wh im) \<and> 0 \<le> t \<and> t < b \<and> b \<le> snd (size_wh im))"
  using getbbox_within [of im l t r b]
  by (auto simp: content_size_val margin_val target_size_def inside_iff)

theorem paste_and_crop_stay_inside_witness:
  "inside (Image_new RGBA (content_size, content_size) (0, 0, 0, 0)) (60 - margin) (70 - margin) \<and>
   inside (Image_new RGBA (target_size, target_size) (0, 0, 0, 0)) 60 70 \<and>
   getbbox dot = Some (0, 0, 1, 1) \<and> size_wh dot = (1, 1)"
  using paste_and_crop_stay_inside
    [of "Image_new RGBA (content_size, content_size) (0, 0, 0, 0)"
        "Image_new RGBA (target_size, target_size) (0, 0, 0, 0)" 60 70 dot 0 0 1 1]
  by (simp add: getbbox_dot size_dot size_new inside_iff content_size_val margin_val
      target_size_def)



text \<open>
  C1. When the input file decodes to an image that, converted to RGBA, has a pixel of
  non-zero alpha, and the environment lets the write complete, the function returns
  \<open>True\<close> and the output path holds a PNG file whose image is 1024 by 1024 in mode RGBA;
  run from the entry point, the exit code is 0.
\<close>

theorem output_is_1024_RGBA_PNG:
  assumes "Image_open (files w) ip = Inr img0"
    and "inside (ensure_RGBA img0) x y" and "alpha (px (ensure_RGBA img0) x y) \<noteq> 0"
    and "device e = Completes"
  shows "\<exists>out. fst (fix_icon_padding e ip op w) = Inr True \<and>
           files (snd (fix_icon_padding e ip op w)) op = Some (Image_file PNG out) \<and>
           size_wh out = (1024, 1024) \<and> mode out = RGBA \<and>
           (ip = input_file \<and> op = output_file \<longrightarrow> fst (main e w) = 0)"
proof -
  have "holds_data (ensure_RGBA img0) x y"
    using assms(2,3) by (simp add: holds_data_RGBA mode_ensure_RGBA)
  then have "getbbox (ensure_RGBA img0) \<noteq> None"
    by (auto simp: getbbox_None_iff)
  then obtain l t r b where g: "getbbox (ensure_RGBA img0) = Some (l, t, r, b)"
    by (cases "getbbox (ensure_RGBA img0)") auto
  from fix_completes [OF assms(1) g assms(4), of op] obtain w' out where
    f: "fix_icon_padding e ip op w = (Inr True, w')"
    and w': "files w' op = Some (Image_file PNG out)"
    and out: "size_wh out = (target_size, target_size)" "mode out = RGBA"
    by (auto simp: size_paste mode_paste size_new mode_new)
  have "fst (main e w) = 0" if "ip = input_file \<and> op = output_file"
    using main_completes [of e w w'] f that by simp
  with f w' out show ?thesis by (auto simp: target_size_def)
qed

theorem output_is_1024_RGBA_PNG_witness:
  "\<exists>out. fst (fix_icon_padding (env_of Completes) input_file output_file (icon_world dot))
            = Inr True \<and>
     files (snd (fix_icon_padding (env_of Completes) input_file output_file (icon_world dot)))
        output_file = Some (Image_file PNG out) \<and>
     size_wh out = (1024, 1024) \<and> mode out = RGBA \<and>
     fst (main (env_of Completes) (icon_world dot)) = 0"
proof -
  have d: "ensure_RGBA dot = dot"
    by (simp add: ensure_RGBA_id dot_def mode_new)
  have "inside dot 0 0" "alpha (px dot 0 0) \<noteq> 0"
    by (simp_all add: dot_def Image_new_def inside_iff alpha_def)
  with output_is_1024_RGBA_PNG
    [of "icon_world dot" input_file dot 0 0 "env_of Completes" output_file]
  show ?thesis by (simp add: open_icon_world d device_env_of)
qed

text \<open>
  C9. An input with at least one pixel whose mode has no alpha band and which carries no
  transparency (an \<open>L\<close> or \<open>RGB\<close> image without colour key, a palette image whose entries
  are all opaque) is converted to an image whose every pixel has alpha 255, whatever the
  colours are. Its bounding box is the whole image, so the function never takes the
  "no content" branch.
\<close>

theorem opaque_modes_always_have_content:
  assumes "Image_open (files w) ip = Inr img0" and "no_transparency img0"
    and "0 < fst (size_wh img0)" and "0 < snd (size_wh img0)"
  shows "(\<forall>x y. alpha (px (ensure_RGBA img0) x y) = 255) \<and>
         getbbox (ensure_RGBA img0) = Some (0, 0, fst (size_wh img0), snd (size_wh img0)) \<and>
         fst (fix_icon_padding e ip op w) \<noteq> Inr False"
proof -
  let ?im = "ensure_RGBA img0"
  have a: "alpha (px ?im x y) = 255" for x y
  proof (cases "px img0 x y")
    case (fields r g b a)
    with assms(2) show ?thesis
      by (cases "mode img0")
         (simp_all add: no_transparency_def ensure_RGBA_def convert_RGBA_def to_rgba_def
            keyed_def alpha_def)
  qed
  have h: "holds_data ?im x y \<longleftrightarrow> inside ?im x y" for x y
    by (simp add: holds_data_RGBA mode_ensure_RGBA a)
  have g: "getbbox ?im = Some (0, 0, fst (size_wh img0), snd (size_wh img0))"
  proof (rule getbbox_eqI)
    show "holds_data ?im 0 0" "holds_data ?im (fst (size_wh img0) - 1) 0"
      "holds_data ?im 0 0" "holds_data ?im 0 (snd (size_wh img0) - 1)"
      using assms(3,4) by (simp_all add: h inside_iff size_ensure_RGBA)
  qed (simp add: h inside_iff size_ensure_RGBA)
  from fix_content [OF assms(1) g, of e op] obtain sv where
    "fix_icon_padding e ip op w =
       (case sv of
          (Some err, fs) \<Rightarrow> (Inl err, w\<lparr>files := fs\<rparr>)
        | (None, fs) \<Rightarrow>
            (Inr True, w\<lparr>files := fs,
               stdout := stdout w @ [Icon_fixed op,
                  Original_bounding_box (0, 0, fst (size_wh img0), snd (size_wh img0)),
                  New_size target_size margin]\<rparr>))"
    by blast
  then have "fst (fix_icon_padding e ip op w) \<noteq> Inr False"
    by (simp split: prod.split option.split)
  with a g show ?thesis by simp
qed

theorem opaque_modes_always_have_content_witness:
  "alpha (px (ensure_RGBA black) 1 1) = 255 \<and>
   px black 1 1 = (0, 0, 0, 0) \<and>
   getbbox (ensure_RGBA black) = Some (0, 0, 2, 2) \<and>
   fst (fix_icon_padding (env_of Completes) input_file output_file (icon_world black))
     \<noteq> Inr False"
proof -
  have "no_transparency black" "size_wh black = (2, 2)" "px black 1 1 = (0, 0, 0, 0)"
    by (simp_all add: no_transparency_def black_def Image_new_def)
  with opaque_modes_always_have_content
    [of "icon_world black" input_file black "env_of Completes" output_file]
  show ?thesis by (simp add: open_icon_world)
qed

text \<open>
  C8. Idempotence does not hold: there is an input with content, the 921 by 921 image at
  half opacity, on which the program, run a second time on the file its first run wrote,
  writes a different image, whatever the resampling filter computes. Both runs exit with
  code 0. The second run finds the bounding box (51, 51, 972, 972), so it crops the margin
  the first run added and pads again; the alpha of the content, 128 in the input, is 64
  after the first run and 16 after the second, because pasting under the content's own
  alpha mixes the alpha band too.
\<close>

theorem second_run_differs:
  "\<exists>im. mode im = RGBA \<and> getbbox im = Some (0, 0, 921, 921) \<and>
     (let e = \<lparr>resample = k, device = Completes\<rparr>;
          w1 = snd (main e (icon_world im));
          w2 = snd (main e w1)
      in fst (main e (icon_world im)) = 0 \<and> fst (main e w1) = 0 \<and>
         saved w2 output_file \<noteq> saved w1 output_file \<and>
         alpha (px (the (saved w1 output_file)) 51 51) = 64 \<and>
         alpha (px (the (saved w2 output_file)) 51 51) = 16 \<and>
         Original_bounding_box (51, 51, 972, 972) \<in> set (stdout w2))"
proof -
  define e where "e = \<lparr>resample = k, device = Completes\<rparr>"
  have d: "device e = Completes" by (simp add: e_def)
  from run_veil [OF d] obtain R1 w1 where
    R1: "size_wh R1 = (content_size, content_size)"
    and p1: "\<forall>x y. inside R1 x y \<longrightarrow> px R1 x y = (0, 0, 0, 128)"
    and f1: "fix_icon_padding e input_file output_file (icon_world veil) = (Inr True, w1)"
    and w1: "w1 = (icon_world veil)\<lparr>files := (files (icon_world veil))(output_file \<mapsto>
                Image_file PNG
                  (paste (Image_new RGBA (target_size, target_size) (0, 0, 0, 0)) R1
                     (margin, margin) R1)),
              stdout := stdout (icon_world veil) @
                  [Icon_fixed output_file, Original_bounding_box (0, 0, 921, 921),
                   New_size target_size margin]\<rparr>"
    by blast
  let ?out1 = "paste (Image_new RGBA (target_size, target_size) (0, 0, 0, 0)) R1
                 (margin, margin) R1"
  have m1: "main e (icon_world veil) = (0, w1)" by (rule main_completes [OF f1])
  have s1: "saved w1 output_file = Some ?out1" by (simp add: w1 saved_def)
  have i0: "inside R1 0 0" by (simp add: inside_iff R1 content_size_val)
  from p1 i0 have "px R1 0 0 = (0, 0, 0, 128)" by simp
  then have o1: "px ?out1 51 51 = (0, 0, 0, 64)"
    unfolding px_final [OF R1]
    by (simp add: content_size_val margin_val alpha_def blend_veil)
  have v: "\<forall>x y. inside R1 x y \<longrightarrow> blend8 (alpha (px R1 x y)) 0 (alpha (px R1 x y)) \<noteq> 0"
    using p1 by (simp add: alpha_def blend8_def div255_def)
  have op: "Image_open (files w1) input_file = Inr ?out1"
    by (simp add: w1 open_after_save)
  from rerun [OF R1 v op d, of output_file] obtain R2 w2 where
    R2: "size_wh R2 = (content_size, content_size)"
    and p2: "\<forall>x y. inside R2 x y \<longrightarrow> px R2 x y = px ?out1 (x + 51) (y + 51)"
    and f2: "fix_icon_padding e input_file output_file w1 = (Inr True, w2)"
    and w2: "w2 = w1\<lparr>files := (files w1)(output_file \<mapsto> Image_file PNG
                     (paste (Image_new RGBA (target_size, target_size) (0, 0, 0, 0)) R2
                        (margin, margin) R2)),
                stdout := stdout w1 @
                  [Icon_fixed output_file, Original_bounding_box (51, 51, 972, 972),
                   New_size target_size margin]\<rparr>"
    by blast
  let ?out2 = "paste (Image_new RGBA (target_size, target_size) (0, 0, 0, 0)) R2
                 (margin, margin) R2"
  have m2: "main e w1 = (0, w2)" by (rule main_completes [OF f2])
  have s2: "saved w2 output_file = Some ?out2" by (simp add: w2 saved_def)
  have j0: "inside R2 0 0" by (simp add: inside_iff R2 content_size_val)
  with p2 o1 have "px R2 0 0 = (0, 0, 0, 64)" by simp
  then have o2: "px ?out2 51 51 = (0, 0, 0, 16)"
    unfolding px_final [OF R2]
    by (simp add: content_size_val margin_val alpha_def blend_veil)
  from o1 o2 have ne: "?out2 \<noteq> ?out1" by auto
  have bb: "Original_bounding_box (51, 51, 972, 972) \<in> set (stdout w2)"
    by (simp add: w2)
  have "mode veil = RGBA" by (simp add: veil_def mode_new)
  with getbbox_veil m1 m2 s1 s2 ne o1 o2 bb show ?thesis
    unfolding e_def [symmetric] Let_def
    by (intro exI [of _ veil]) (simp add: alpha_def e_def [symmetric])
qed

text \<open>
  C4. Whatever the width and height of the bounding box, the crop succeeds and holds the
  pixels of the box; it is resized to exactly content size by content size with the
  \<open>LANCZOS\<close> filter, square or not (its pixels are the filter's, or the crop's own when the
  crop already has that size); the canvas is a new RGBA image of target size by target size
  whose every pixel is transparent black; and the image saved is the canvas with the
  resized crop pasted at (margin, margin) under its own alpha. Written out: outside the
  pasted square a pixel of the saved image is transparent black, and inside it each band
  \<open>c\<close> of the resized pixel, its alpha \<open>a\<close> included, becomes \<open>c * a / 255\<close> rounded by
  the library's shift arithmetic; so a resized pixel of alpha 255 is copied as it is and
  one of alpha 0 leaves the canvas transparent.
\<close>

theorem crop_squared_and_pasted_under_own_alpha:
  assumes "Image_open (files w) ip = Inr img0"
    and "getbbox (ensure_RGBA img0) = Some (l, t, r, b)"
    and "device e = Completes"
  shows "\<exists>cropped R canvas out.
           crop (ensure_RGBA img0) (l, t, r, b) = Inr cropped \<and>
           size_wh cropped = (r - l, b - t) \<and> 0 < r - l \<and> 0 < b - t \<and>
           (\<forall>x y. 0 \<le> x \<and> x < r - l \<and> 0 \<le> y \<and> y < b - t \<longrightarrow>
              px cropped x y = px (ensure_RGBA img0) (x + l) (y + t)) \<and>
           R = resize (resample e) cropped (content_size, content_size) LANCZOS \<and>
           size_wh R = (content_size, content_size) \<and> mode R = RGBA \<and>
           (size_wh cropped \<noteq> (content_size, content_size) \<longrightarrow>
              px R = resample e LANCZOS cropped (content_size, content_size)) \<and>
           (size_wh cropped = (content_size, content_size) \<longrightarrow> px R = px cropped) \<and>
           canvas = Image_new RGBA (target_size, target_size) (0, 0, 0, 0) \<and>
           size_wh canvas = (target_size, target_size) \<and> mode canvas = RGBA \<and>
           (\<forall>x y. px canvas x y = (0, 0, 0, 0)) \<and>
           out = paste canvas R (margin, margin) R \<and>
           saved (snd (fix_icon_padding e ip op w)) op = Some out \<and>
           size_wh out = (target_size, target_size) \<and> mode out = RGBA \<and>
           (\<forall>x y. px out x y =
              (if margin \<le> x \<and> x < margin + content_size \<and>
                  margin \<le> y \<and> y < margin + content_size
               then (case px R (x - margin) (y - margin) of (cr, cg, cb, ca) \<Rightarrow>
                 (word_of_nat (((unat cr * unat ca + 128) div 256 + (unat cr * unat ca + 128)) div 256),
                  word_of_nat (((unat cg * unat ca + 128) div 256 + (unat cg * unat ca + 128)) div 256),
                  word_of_nat (((unat cb * unat ca + 128) div 256 + (unat cb * unat ca + 128)) div 256),
                  word_of_nat (((unat ca * unat ca + 128) div 256 + (unat ca * unat ca + 128)) div 256)))
               else (0, 0, 0, 0))) \<and>
           (\<forall>x y. margin \<le> x \<and> x < margin + content_size \<and>
                  margin \<le> y \<and> y < margin + content_size \<and>
                  alpha (px R (x - margin) (y - margin)) = 255 \<longrightarrow>
                  px out x y = px R (x - margin) (y - margin)) \<and>
           (\<forall>x y. margin \<le> x \<and> x < margin + content_size \<and>
                  margin \<le> y \<and> y < margin + content_size \<and>
                  alpha (px R (x - margin) (y - margin)) = 0 \<longrightarrow>
                  px out x y = (0, 0, 0, 0))"
proof -
  let ?im = "ensure_RGBA img0"
  from fix_completes [OF assms, of op] obtain cropped where
    c: "crop ?im (l, t, r, b) = Inr cropped"
    and sz: "size_wh cropped = (r - l, b - t)"
    and f: "saved (snd (fix_icon_padding e ip op w)) op =
             Some (paste (Image_new RGBA (target_size, target_size) (0, 0, 0, 0))
                      (resize (resample e) cropped (content_size, content_size) LANCZOS)
                      (margin, margin)
                      (resize (resample e) cropped (content_size, content_size) LANCZOS))"
    by (auto simp: saved_upd)
  define R where "R = resize (resample e) cropped (content_size, content_size) LANCZOS"
  define canvas where "canvas = Image_new RGBA (target_size, target_size) (0, 0, 0, 0)"
  define out where "out = paste canvas R (margin, margin) R"
  have pos: "0 < r - l" "0 < b - t"
    using getbbox_within [OF assms(2)] by simp_all
  have pc: "\<forall>x y. 0 \<le> x \<and> x < r - l \<and> 0 \<le> y \<and> y < b - t \<longrightarrow>
              px cropped x y = px ?im (x + l) (y + t)"
    using px_crop [OF assms(2) c] by simp
  have Rs: "size_wh R = (content_size, content_size)"
    unfolding R_def by (rule size_resize)
  have Rm: "mode R = RGBA"
    unfolding R_def by (simp add: mode_resize mode_crop [OF assms(2) c] mode_ensure_RGBA)
  have k1: "size_wh cropped \<noteq> (content_size, content_size) \<longrightarrow>
              px R = resample e LANCZOS cropped (content_size, content_size)"
    and k2: "size_wh cropped = (content_size, content_size) \<longrightarrow> px R = px cropped"
    unfolding R_def by (simp_all add: px_resize)
  have cs: "size_wh canvas = (target_size, target_size)" and cm: "mode canvas = RGBA"
    and cp: "\<forall>x y. px canvas x y = (0, 0, 0, 0)"
    unfolding canvas_def by (simp_all add: Image_new_def)
  have sv: "saved (snd (fix_icon_padding e ip op w)) op = Some out"
    unfolding out_def canvas_def R_def by (rule f)
  have os: "size_wh out = (target_size, target_size)" and om: "mode out = RGBA"
    unfolding out_def canvas_def by (simp_all add: size_paste mode_paste size_new mode_new)
  have ex: "px out x y =
      (if 51 \<le> x \<and> x < 972 \<and> 51 \<le> y \<and> y < 972
       then (case px R (x - 51) (y - 51) of (cr, cg, cb, ca) \<Rightarrow>
         (word_of_nat (((unat cr * unat ca + 128) div 256 + (unat cr * unat ca + 128)) div 256),
          word_of_nat (((unat cg * unat ca + 128) div 256 + (unat cg * unat ca + 128)) div 256),
          word_of_nat (((unat cb * unat ca + 128) div 256 + (unat cb * unat ca + 128)) div 256),
          word_of_nat (((unat ca * unat ca + 128) div 256 + (unat ca * unat ca + 128)) div 256)))
       else (0, 0, 0, 0))" for x y
    unfolding out_def canvas_def by (rule px_final_explicit [OF Rs])
  have bl: "px out x y =
      (if 51 \<le> x \<and> x < 972 \<and> 51 \<le> y \<and> y < 972
       then blend (alpha (px R (x - 51) (y - 51))) (0, 0, 0, 0) (px R (x - 51) (y - 51))
       else (0, 0, 0, 0))" for x y
    unfolding out_def canvas_def px_final [OF Rs] by (simp add: content_size_val margin_val)
  have ex': "\<forall>x y. px out x y =
      (if margin \<le> x \<and> x < margin + content_size \<and>
          margin \<le> y \<and> y < margin + content_size
       then (case px R (x - margin) (y - margin) of (cr, cg, cb, ca) \<Rightarrow>
         (word_of_nat (((unat cr * unat ca + 128) div 256 + (unat cr * unat ca + 128)) div 256),
          word_of_nat (((unat cg * unat ca + 128) div 256 + (unat cg * unat ca + 128)) div 256),
          word_of_nat (((unat cb * unat ca + 128) div 256 + (unat cb * unat ca + 128)) div 256),
          word_of_nat (((unat ca * unat ca + 128) div 256 + (unat ca * unat ca + 128)) div 256)))
       else (0, 0, 0, 0))"
    unfolding content_size_val margin_val using ex by simp
  have p255: "\<forall>x y. margin \<le> x \<and> x < margin + content_size \<and>
                  margin \<le> y \<and> y < margin + content_size \<and>
                  alpha (px R (x - margin) (y - margin)) = 255 \<longrightarrow>
                  px out x y = px R (x - margin) (y - margin)"
    unfolding content_size_val margin_val by (simp add: bl blend_255)
  have p0: "\<forall>x y. margin \<le> x \<and> x < margin + content_size \<and>
                  margin \<le> y \<and> y < margin + content_size \<and>
                  alpha (px R (x - margin) (y - margin)) = 0 \<longrightarrow>
                  px out x y = (0, 0, 0, 0)"
    unfolding content_size_val margin_val
  proof (intro allI impI)
    fix x y :: int
    assume h: "51 \<le> x \<and> x < 51 + 921 \<and> 51 \<le> y \<and> y < 51 + 921 \<and>
                  alpha (px R (x - 51) (y - 51)) = 0"
    obtain cr cg cb ca where p: "px R (x - 51) (y - 51) = (cr, cg, cb, ca)"
      by (cases "px R (x - 51) (y - 51)") auto
    with h have "ca = 0" by (simp add: alpha_def)
    with h p show "px out x y = (0, 0, 0, 0)" by (simp add: ex)
  qed
  show ?thesis
    by (rule exI [of _ cropped], rule exI [of _ R], rule exI [of _ canvas],
        rule exI [of _ out])
       (intro conjI; fact)
qed

theorem crop_squared_and_pasted_under_own_alpha_witness:
  "\<exists>cropped out.
     crop (ensure_RGBA bar) (0, 0, 4, 2) = Inr cropped \<and> size_wh cropped = (4, 2) \<and>
     size_wh (resize nearest cropped (content_size, content_size) LANCZOS) = (921, 921) \<and>
     saved (snd (fix_icon_padding (env_of Completes) input_file output_file (icon_world bar)))
       output_file = Some out \<and>
     size_wh out = (1024, 1024) \<and>
     px out 51 51 = (255, 255, 255, 255) \<and> px out 951 60 = (100, 50, 25, 64) \<and>
     px out 50 60 = (0, 0, 0, 0) \<and> px out 972 60 = (0, 0, 0, 0)"
proof -
  have g: "getbbox (ensure_RGBA bar) = Some (0, 0, 4, 2)"
    by (simp add: ensure_bar getbbox_bar)
  from crop_squared_and_pasted_under_own_alpha
    [OF open_icon_world g device_env_of, of output_file]
  obtain cropped R out where
    c: "crop (ensure_RGBA bar) (0, 0, 4, 2) = Inr cropped"
    and sz: "size_wh cropped = (4 - 0, 2 - 0)"
    and pc: "\<forall>x y. 0 \<le> x \<and> x < 4 - 0 \<and> 0 \<le> y \<and> y < 2 - 0 \<longrightarrow>
              px cropped x y = px (ensure_RGBA bar) (x + 0) (y + 0)"
    and R: "R = resize (resample (env_of Completes)) cropped (content_size, content_size) LANCZOS"
    and Rs: "size_wh R = (content_size, content_size)"
    and k: "size_wh cropped \<noteq> (content_size, content_size) \<longrightarrow>
              px R = resample (env_of Completes) LANCZOS cropped (content_size, content_size)"
    and sv: "saved (snd (fix_icon_padding (env_of Completes) input_file output_file
                           (icon_world bar))) output_file = Some out"
    and os: "size_wh out = (target_size, target_size)"
    and ex: "\<forall>x y. px out x y =
              (if margin \<le> x \<and> x < margin + content_size \<and>
                  margin \<le> y \<and> y < margin + content_size
               then (case px R (x - margin) (y - margin) of (cr, cg, cb, ca) \<Rightarrow>
                 (word_of_nat (((unat cr * unat ca + 128) div 256 + (unat cr * unat ca + 128)) div 256),
                  word_of_nat (((unat cg * unat ca + 128) div 256 + (unat cg * unat ca + 128)) div 256),
                  word_of_nat (((unat cb * unat ca + 128) div 256 + (unat cb * unat ca + 128)) div 256),
                  word_of_nat (((unat ca * unat ca + 128) div 256 + (unat ca * unat ca + 128)) div 256)))
               else (0, 0, 0, 0))"
    by blast
  from sz have sz': "size_wh cropped = (4, 2)" by simp
  with k have pr: "px R = nearest LANCZOS cropped (921, 921)"
    by (simp add: content_size_val env_of_def)
  from pc have "px cropped 0 0 = (255, 255, 255, 255)" "px cropped 3 0 = (200, 100, 50, 128)"
    by (simp_all add: ensure_bar px_bar)
  then have r: "px R 0 0 = (255, 255, 255, 255)" "px R 900 9 = (200, 100, 50, 128)"
    by (simp_all add: pr nearest_def sz')
  have o: "px out 51 51 = (255, 255, 255, 255)" "px out 951 60 = (100, 50, 25, 64)"
    "px out 50 60 = (0, 0, 0, 0)" "px out 972 60 = (0, 0, 0, 0)"
    by (simp_all add: ex content_size_val margin_val r)
  from c sz' Rs sv os o show ?thesis
    by (intro exI [of _ cropped] exI [of _ out])
       (simp add: R [symmetric] env_of_def [symmetric] size_resize content_size_val
          target_size_def)
qed

text \<open>
  C6. The scenario: the input decodes to a 512 by 512 RGBA image that is opaque on the
  pixels with 100 \<le> x < 400 and 100 \<le> y < 400 (the box from corner (100, 100) to corner
  (400, 400), edges exclusive on the right and below) and transparent elsewhere, and the
  write completes. Then the bounding box is (100, 100, 400, 400); the crop is 300 by 300
  and holds those opaque pixels; the resized crop is 921 by 921, with the pixels the
  \<open>LANCZOS\<close> filter computes; the function returns \<open>True\<close>; and the output path holds, as
  PNG, a 1024 by 1024 RGBA image that is transparent black outside the square from
  (51, 51) to (972, 972) and inside it holds the resized crop, each band mixed under the
  pixel's own alpha (a resized pixel of alpha 255 is copied as it is).
\<close>

theorem scenario_512:
  assumes "Image_open (files w) ip = Inr img0"
    and "mode img0 = RGBA" and "size_wh img0 = (512, 512)"
    and "\<forall>x y. inside img0 x y \<longrightarrow>
           alpha (px img0 x y) =
             (if 100 \<le> x \<and> x < 400 \<and> 100 \<le> y \<and> y < 400 then 255 else 0)"
    and "device e = Completes"
  shows "getbbox (ensure_RGBA img0) = Some (100, 100, 400, 400) \<and>
         (\<exists>cropped R out.
            crop (ensure_RGBA img0) (100, 100, 400, 400) = Inr cropped \<and>
            size_wh cropped = (300, 300) \<and>
            (\<forall>x y. 0 \<le> x \<and> x < 300 \<and> 0 \<le> y \<and> y < 300 \<longrightarrow>
               px cropped x y = px img0 (x + 100) (y + 100) \<and> alpha (px cropped x y) = 255) \<and>
            R = resize (resample e) cropped (content_size, content_size) LANCZOS \<and>
            size_wh R = (921, 921) \<and>
            px R = resample e LANCZOS cropped (921, 921) \<and>
            out = paste (Image_new RGBA (1024, 1024) (0, 0, 0, 0)) R (51, 51) R \<and>
            fst (fix_icon_padding e ip op w) = Inr True \<and>
            files (snd (fix_icon_padding e ip op w)) op = Some (Image_file PNG out) \<and>
            size_wh out = (1024, 1024) \<and> mode out = RGBA \<and>
            (\<forall>x y. px out x y =
               (if 51 \<le> x \<and> x < 972 \<and> 51 \<le> y \<and> y < 972
                then (case px R (x - 51) (y - 51) of (cr, cg, cb, ca) \<Rightarrow>
                  (word_of_nat (((unat cr * unat ca + 128) div 256 + (unat cr * unat ca + 128)) div 256),
                   word_of_nat (((unat cg * unat ca + 128) div 256 + (unat cg * unat ca + 128)) div 256),
                   word_of_nat (((unat cb * unat ca + 128) div 256 + (unat cb * unat ca + 128)) div 256),
                   word_of_nat (((unat ca * unat ca + 128) div 256 + (unat ca * unat ca + 128)) div 256)))
                else (0, 0, 0, 0))) \<and>
            (\<forall>x y. 51 \<le> x \<and> x < 972 \<and> 51 \<le> y \<and> y < 972 \<and>
                   alpha (px R (x - 51) (y - 51)) = 255 \<longrightarrow>
                   px out x y = px R (x - 51) (y - 51)))"
proof -
  have e: "ensure_RGBA img0 = img0"
    using assms(2) by (rule ensure_RGBA_id)
  have g0: "getbbox img0 = Some (100, 100, 400, 400)"
    by (rule getbbox_box [OF assms(2,3)]) (use assms(4) in simp_all)
  then have g: "getbbox (ensure_RGBA img0) = Some (100, 100, 400, 400)"
    by (simp add: e)
  from fix_completes [OF assms(1) g assms(5), of op] obtain cropped where
    c: "crop (ensure_RGBA img0) (100, 100, 400, 400) = Inr cropped"
    and sz: "size_wh cropped = (300, 300)"
    and fr: "fst (fix_icon_padding e ip op w) = Inr True"
    and fs: "files (snd (fix_icon_padding e ip op w)) op =
       Some (Image_file PNG
         (paste (Image_new RGBA (target_size, target_size) (0, 0, 0, 0))
            (resize (resample e) cropped (content_size, content_size) LANCZOS)
            (margin, margin)
            (resize (resample e) cropped (content_size, content_size) LANCZOS)))"
    by auto
  define R where "R = resize (resample e) cropped (content_size, content_size) LANCZOS"
  define out where "out = paste (Image_new RGBA (1024, 1024) (0, 0, 0, 0)) R (51, 51) R"
  have out': "out = paste (Image_new RGBA (target_size, target_size) (0, 0, 0, 0)) R
                      (margin, margin) R"
    by (simp add: out_def target_size_def margin_val)
  have Rs: "size_wh R = (content_size, content_size)"
    unfolding R_def by (rule size_resize)
  then have Rs': "size_wh R = (921, 921)" by (simp add: content_size_val)
  have Rp: "px R = resample e LANCZOS cropped (921, 921)"
    unfolding R_def by (simp add: px_resize(1) sz content_size_val)
  have pc: "\<forall>x y. 0 \<le> x \<and> x < 300 \<and> 0 \<le> y \<and> y < 300 \<longrightarrow>
               px cropped x y = px img0 (x + 100) (y + 100) \<and> alpha (px cropped x y) = 255"
  proof (intro allI impI)
    fix x y :: int
    assume h: "0 \<le> x \<and> x < 300 \<and> 0 \<le> y \<and> y < 300"
    with px_crop [OF g0 c [unfolded e], of x y]
    have p: "px cropped x y = px img0 (x + 100) (y + 100)" by simp
    from h have "inside img0 (x + 100) (y + 100)"
      by (simp add: inside_iff assms(3))
    with assms(4) h have "alpha (px img0 (x + 100) (y + 100)) = 255" by simp
    with p show "px cropped x y = px img0 (x + 100) (y + 100) \<and> alpha (px cropped x y) = 255"
      by simp
  qed
  have fs': "files (snd (fix_icon_padding e ip op w)) op = Some (Image_file PNG out)"
    unfolding out' R_def by (rule fs)
  have os: "size_wh out = (1024, 1024)" and om: "mode out = RGBA"
    unfolding out' by (rule size_final, rule mode_final)
  have ex: "\<forall>x y. px out x y =
               (if 51 \<le> x \<and> x < 972 \<and> 51 \<le> y \<and> y < 972
                then (case px R (x - 51) (y - 51) of (cr, cg, cb, ca) \<Rightarrow>
                  (word_of_nat (((unat cr * unat ca + 128) div 256 + (unat cr * unat ca + 128)) div 256),
                   word_of_nat (((unat cg * unat ca + 128) div 256 + (unat cg * unat ca + 128)) div 256),
                   word_of_nat (((unat cb * unat ca + 128) div 256 + (unat cb * unat ca + 128)) div 256),
                   word_of_nat (((unat ca * unat ca + 128) div 256 + (unat ca * unat ca + 128)) div 256)))
                else (0, 0, 0, 0))"
    unfolding out' by (intro allI px_final_explicit [OF Rs])
  have op: "\<forall>x y. 51 \<le> x \<and> x < 972 \<and> 51 \<le> y \<and> y < 972 \<and>
                   alpha (px R (x - 51) (y - 51)) = 255 \<longrightarrow>
                   px out x y = px R (x - 51) (y - 51)"
    unfolding out' using px_final_opaque [OF Rs] by blast
  have "\<exists>cropped R out.
            crop (ensure_RGBA img0) (100, 100, 400, 400) = Inr cropped \<and>
            size_wh cropped = (300, 300) \<and>
            (\<forall>x y. 0 \<le> x \<and> x < 300 \<and> 0 \<le> y \<and> y < 300 \<longrightarrow>
               px cropped x y = px img0 (x + 100) (y + 100) \<and> alpha (px cropped x y) = 255) \<and>
            R = resize (resample e) cropped (content_size, content_size) LANCZOS \<and>
            size_wh R = (921, 921) \<and>
            px R = resample e LANCZOS cropped (921, 921) \<and>
            out = paste (Image_new RGBA (1024, 1024) (0, 0, 0, 0)) R (51, 51) R \<and>
            fst (fix_icon_padding e ip op w) = Inr True \<and>
            files (snd (fix_icon_padding e ip op w)) op = Some (Image_file PNG out) \<and>
            size_wh out = (1024, 1024) \<and> mode out = RGBA \<and>
            (\<forall>x y. px out x y =
               (if 51 \<le> x \<and> x < 972 \<and> 51 \<le> y \<and> y < 972
                then (case px R (x - 51) (y - 51) of (cr, cg, cb, ca) \<Rightarrow>
                  (word_of_nat (((unat cr * unat ca + 128) div 256 + (unat cr * unat ca + 128)) div 256),
                   word_of_nat (((unat cg * unat ca + 128) div 256 + (unat cg * unat ca + 128)) div 256),
                   word_of_nat (((unat cb * unat ca + 128) div 256 + (unat cb * unat ca + 128)) div 256),
                   word_of_nat (((unat ca * unat ca + 128) div 256 + (unat ca * unat ca + 128)) div 256)))
                else (0, 0, 0, 0))) \<and>
            (\<forall>x y. 51 \<le> x \<and> x < 972 \<and> 51 \<le> y \<and> y < 972 \<and>
                   alpha (px R (x - 51) (y - 51)) = 255 \<longrightarrow>
                   px out x y = px R (x - 51) (y - 51))"
    by (rule exI [of _ cropped], rule exI [of _ R], rule exI [of _ out])
       (intro conjI; fact)
  with g show ?thesis by (rule conjI)
qed

theorem scenario_512_witness:
  "getbbox (ensure_RGBA scenario) = Some (100, 100, 400, 400) \<and>
   (\<exists>cropped out.
      crop (ensure_RGBA scenario) (100, 100, 400, 400) = Inr cropped \<and>
      size_wh cropped = (300, 300) \<and>
      size_wh (resize nearest cropped (content_size, content_size) LANCZOS) = (921, 921) \<and>
      fst (fix_icon_padding (env_of Completes) input_file output_file (icon_world scenario))
        = Inr True \<and>
      files (snd (fix_icon_padding (env_of Completes) input_file output_file
                    (icon_world scenario))) output_file = Some (Image_file PNG out) \<and>
      size_wh out = (1024, 1024) \<and> mode out = RGBA \<and>
      px out 51 51 = (255, 255, 255, 255) \<and> px out 971 971 = (255, 255, 255, 255) \<and>
      px out 50 51 = (0, 0, 0, 0) \<and> px out 972 972 = (0, 0, 0, 0) \<and>
      getbbox out = Some (51, 51, 972, 972))"
proof -
  have a: "\<forall>x y. inside scenario x y \<longrightarrow>
           alpha (px scenario x y) =
             (if 100 \<le> x \<and> x < 400 \<and> 100 \<le> y \<and> y < 400 then 255 else 0)"
    by (simp add: alpha_scenario)
  from scenario_512 [OF open_icon_world mode_scenario size_scenario a device_env_of,
      of output_file]
  obtain cropped R out where
    g: "getbbox (ensure_RGBA scenario) = Some (100, 100, 400, 400)"
    and c: "crop (ensure_RGBA scenario) (100, 100, 400, 400) = Inr cropped"
    and sz: "size_wh cropped = (300, 300)"
    and pc: "\<forall>x y. 0 \<le> x \<and> x < 300 \<and> 0 \<le> y \<and> y < 300 \<longrightarrow>
               px cropped x y = px scenario (x + 100) (y + 100) \<and>
               alpha (px cropped x y) = 255"
    and R: "R = resize (resample (env_of Completes)) cropped (content_size, content_size) LANCZOS"
    and Rs: "size_wh R = (921, 921)"
    and Rp: "px R = resample (env_of Completes) LANCZOS cropped (921, 921)"
    and out: "out = paste (Image_new RGBA (1024, 1024) (0, 0, 0, 0)) R (51, 51) R"
    and fr: "fst (fix_icon_padding (env_of Completes) input_file output_file
                    (icon_world scenario)) = Inr True"
    and fs: "files (snd (fix_icon_padding (env_of Completes) input_file output_file
                    (icon_world scenario))) output_file = Some (Image_file PNG out)"
    and os: "size_wh out = (1024, 1024)" "mode out = RGBA"
    and ex: "\<forall>x y. px out x y =
               (if 51 \<le> x \<and> x < 972 \<and> 51 \<le> y \<and> y < 972
                then (case px R (x - 51) (y - 51) of (cr, cg, cb, ca) \<Rightarrow>
                  (word_of_nat (((unat cr * unat ca + 128) div 256 + (unat cr * unat ca + 128)) div 256),
                   word_of_nat (((unat cg * unat ca + 128) div 256 + (unat cg * unat ca + 128)) div 256),
                   word_of_nat (((unat cb * unat ca + 128) div 256 + (unat cb * unat ca + 128)) div 256),
                   word_of_nat (((unat ca * unat ca + 128) div 256 + (unat ca * unat ca + 128)) div 256)))
                else (0, 0, 0, 0))"
    by blast
  have pr: "px R x y = px cropped (x * 300 div 921) (y * 300 div 921)" for x y
    by (simp add: Rp env_of_def nearest_def sz)
  from pc have w: "px cropped 0 0 = (255, 255, 255, 255)" "px cropped 299 299 = (255, 255, 255, 255)"
    "px cropped 299 0 = (255, 255, 255, 255)" "px cropped 0 299 = (255, 255, 255, 255)"
    by (simp_all add: scenario_def)
  then have r: "px R 0 0 = (255, 255, 255, 255)" "px R 920 920 = (255, 255, 255, 255)"
    "px R 920 0 = (255, 255, 255, 255)" "px R 0 920 = (255, 255, 255, 255)"
    by (simp_all add: pr)
  have o: "px out 51 51 = (255, 255, 255, 255)" "px out 971 971 = (255, 255, 255, 255)"
    "px out 50 51 = (0, 0, 0, 0)" "px out 972 972 = (0, 0, 0, 0)"
    by (simp_all add: ex r)
  have Rs': "size_wh R = (content_size, content_size)"
    by (simp add: Rs content_size_val)
  have "getbbox (paste (Image_new RGBA (target_size, target_size) (0, 0, 0, 0)) R
                   (margin, margin) R) = Some (51, 51, 972, 972)"
    by (rule getbbox_final_edges [OF Rs', where yl = 0 and yr = 0 and xt = 0 and xb = 0])
       (simp_all add: r alpha_def)
  then have gb: "getbbox out = Some (51, 51, 972, 972)"
    by (simp add: out target_size_def margin_val)
  have "size_wh (resize nearest cropped (content_size, content_size) LANCZOS) = (921, 921)"
    by (simp add: size_resize content_size_val)
  with c sz fr fs os o gb have "\<exists>cropped out.
      crop (ensure_RGBA scenario) (100, 100, 400, 400) = Inr cropped \<and>
      size_wh cropped = (300, 300) \<and>
      size_wh (resize nearest cropped (content_size, content_size) LANCZOS) = (921, 921) \<and>
      fst (fix_icon_padding (env_of Completes) input_file output_file (icon_world scenario))
        = Inr True \<and>
      files (snd (fix_icon_padding (env_of Completes) input_file output_file
                    (icon_world scenario))) output_file = Some (Image_file PNG out) \<and>
      size_wh out = (1024, 1024) \<and> mode out = RGBA \<and>
      px out 51 51 = (255, 255, 255, 255) \<and> px out 971 971 = (255, 255, 255, 255) \<and>
      px out 50 51 = (0, 0, 0, 0) \<and> px out 972 972 = (0, 0, 0, 0) \<and>
      getbbox out = Some (51, 51, 972, 972)"
    by (intro exI [of _ cropped] exI [of _ out]) simp
  with g show ?thesis by (rule conjI)
qed

text \<open>
  C2, as stated, fails, in two ways. Run on a single opaque pixel, whose crop is square, the
  program exits with code 0 and saves an image whose content has its bounding box at
  (51, 51, 972, 972): the side is 921, but the margins are 51 on the left and on top and 52
  on the right and below, so the content is not centred and the four margins are not
  equal. Run on a 921 by 921 image of alpha 11, whose crop is square too, it exits with
  code 0 and saves an image with no visible content at all: pasted under its own alpha the
  content's alpha rounds to zero, so no content of side 921 is there.
\<close>

theorem equal_margins_counterexample:
  "fst (main (env_of Completes) (icon_world dot)) = 0 \<and>
   margins (the (saved (snd (main (env_of Completes) (icon_world dot))) output_file))
     = Some (51, 51, 52, 52) \<and>
   \<not> equal_margins (the (saved (snd (main (env_of Completes) (icon_world dot))) output_file)) \<and>
   fst (main (env_of Completes) (icon_world faint)) = 0 \<and>
   getbbox (the (saved (snd (main (env_of Completes) (icon_world faint))) output_file)) = None"
proof -
  from run_dot obtain R w1 where R: "size_wh R = (content_size, content_size)"
    "\<forall>x y. inside R x y \<longrightarrow> alpha (px R x y) = 255"
    and f: "fix_icon_padding (env_of Completes) input_file output_file (icon_world dot) =
         (Inr True, w1)"
    and s: "saved w1 output_file =
         Some (paste (Image_new RGBA (target_size, target_size) (0, 0, 0, 0)) R
                 (margin, margin) R)"
    by (auto simp: saved_upd)
  have m: "main (env_of Completes) (icon_world dot) = (0, w1)"
    by (rule main_completes [OF f])
  have mg: "margins (paste (Image_new RGBA (target_size, target_size) (0, 0, 0, 0)) R
                    (margin, margin) R) = Some (51, 51, 52, 52)"
    by (rule margins_final [OF R(1)]) (simp add: R(2) blend8_opaque)
  from run_faint obtain F w2 where F: "size_wh F = (content_size, content_size)"
    "\<forall>x y. inside F x y \<longrightarrow> px F x y = (0, 0, 0, 11)"
    and f2: "fix_icon_padding (env_of Completes) input_file output_file (icon_world faint) =
         (Inr True, w2)"
    and s2: "saved w2 output_file =
         Some (paste (Image_new RGBA (target_size, target_size) (0, 0, 0, 0)) F
                 (margin, margin) F)"
    by (auto simp: saved_upd)
  have m2: "main (env_of Completes) (icon_world faint) = (0, w2)"
    by (rule main_completes [OF f2])
  have "\<not> holds_data (paste (Image_new RGBA (target_size, target_size) (0, 0, 0, 0)) F
                    (margin, margin) F) x y" for x y
  proof (cases "51 \<le> x \<and> x < 972 \<and> 51 \<le> y \<and> y < 972")
    case True
    then have "inside F (x - 51) (y - 51)" by (simp add: inside_iff F(1) content_size_val)
    with F(2) have "alpha (px F (x - 51) (y - 51)) = 11" by (simp add: alpha_def)
    then show ?thesis by (simp add: holds_data_final_visible [OF F(1)])
  next
    case False
    then show ?thesis by (auto simp: holds_data_final_visible [OF F(1)])
  qed
  then have gn: "getbbox (paste (Image_new RGBA (target_size, target_size) (0, 0, 0, 0)) F
                    (margin, margin) F) = None"
    by (simp add: getbbox_None_iff)
  from mg gn show ?thesis by (simp add: m s m2 s2 equal_margins_def)
qed

text \<open>
  C2, amended. For every successful run, square crop or not, the output path holds a PNG
  of a 1024 by 1024 image in which the resized crop, 921 = floor (1024 * 0.90) pixels wide
  and high, is pasted into the square from (51, 51) to (972, 972), each band mixed under the
  pixel's own alpha; every pixel outside that square is transparent black. A pixel of the
  output is visible (its alpha is not zero) exactly when it lies in the square and the
  resized crop's alpha there is at least 12. So the bounding box of the output's content
  always lies in the square, and it is the whole square exactly when each of the four edges
  of the resized crop has a pixel of alpha at least 12. Then the content has side 921, and
  its margins are 51 pixels on the left and on top and 52 pixels on the right and below
  (the 103 spare pixels do not split evenly): it is centred to within one pixel, and the
  four margins are not equal.
\<close>

theorem content_square_and_margins:
  assumes "fix_icon_padding e ip op w = (Inr True, w')"
  shows "\<exists>img0 bx cropped R out.
           Image_open (files w) ip = Inr img0 \<and>
           getbbox (ensure_RGBA img0) = Some bx \<and>
           crop (ensure_RGBA img0) bx = Inr cropped \<and>
           R = resize (resample e) cropped (content_size, content_size) LANCZOS \<and>
           size_wh R = (921, 921) \<and>
           files w' op = Some (Image_file PNG out) \<and>
           size_wh out = (1024, 1024) \<and>
           (\<forall>x y. px out x y =
              (if 51 \<le> x \<and> x < 972 \<and> 51 \<le> y \<and> y < 972
               then (case px R (x - 51) (y - 51) of (cr, cg, cb, ca) \<Rightarrow>
                 (word_of_nat (((unat cr * unat ca + 128) div 256 + (unat cr * unat ca + 128)) div 256),
                  word_of_nat (((unat cg * unat ca + 128) div 256 + (unat cg * unat ca + 128)) div 256),
                  word_of_nat (((unat cb * unat ca + 128) div 256 + (unat cb * unat ca + 128)) div 256),
                  word_of_nat (((unat ca * unat ca + 128) div 256 + (unat ca * unat ca + 128)) div 256)))
               else (0, 0, 0, 0))) \<and>
           (\<forall>x y. alpha (px out x y) \<noteq> 0 \<longleftrightarrow>
              51 \<le> x \<and> x < 972 \<and> 51 \<le> y \<and> y < 972 \<and>
              12 \<le> unat (alpha (px R (x - 51) (y - 51)))) \<and>
           (\<forall>l t r b. getbbox out = Some (l, t, r, b) \<longrightarrow>
              51 \<le> l \<and> 51 \<le> t \<and> r \<le> 972 \<and> b \<le> 972) \<and>
           (getbbox out = Some (51, 51, 972, 972) \<longleftrightarrow>
              (\<exists>y. 0 \<le> y \<and> y < 921 \<and> 12 \<le> unat (alpha (px R 0 y))) \<and>
              (\<exists>y. 0 \<le> y \<and> y < 921 \<and> 12 \<le> unat (alpha (px R 920 y))) \<and>
              (\<exists>x. 0 \<le> x \<and> x < 921 \<and> 12 \<le> unat (alpha (px R x 0))) \<and>
              (\<exists>x. 0 \<le> x \<and> x < 921 \<and> 12 \<le> unat (alpha (px R x 920)))) \<and>
           (getbbox out = Some (51, 51, 972, 972) \<longrightarrow>
              margins out = Some (51, 51, 52, 52) \<and> \<not> equal_margins out) \<and>
           972 - 51 = content_size \<and> margin = 51 \<and>
           target_size - (margin + content_size) = 52"
proof -
  from fix_True_cases [OF assms] obtain img0 bx cropped where
    o: "Image_open (files w) ip = Inr img0"
    and g: "getbbox (ensure_RGBA img0) = Some bx"
    and c: "crop (ensure_RGBA img0) bx = Inr cropped"
    and w': "files w' op = Some (Image_file PNG
           (paste (Image_new RGBA (target_size, target_size) (0, 0, 0, 0))
              (resize (resample e) cropped (content_size, content_size) LANCZOS)
              (margin, margin)
              (resize (resample e) cropped (content_size, content_size) LANCZOS)))"
    by auto
  define R where "R = resize (resample e) cropped (content_size, content_size) LANCZOS"
  define out where "out = paste (Image_new RGBA (target_size, target_size) (0, 0, 0, 0)) R
                            (margin, margin) R"
  have Rs: "size_wh R = (content_size, content_size)"
    unfolding R_def by (rule size_resize)
  then have Rs': "size_wh R = (921, 921)" by (simp add: content_size_val)
  have f: "files w' op = Some (Image_file PNG out)"
    unfolding out_def R_def by (rule w')
  have os: "size_wh out = (1024, 1024)"
    unfolding out_def by (rule size_final)
  have ex: "\<forall>x y. px out x y =
              (if 51 \<le> x \<and> x < 972 \<and> 51 \<le> y \<and> y < 972
               then (case px R (x - 51) (y - 51) of (cr, cg, cb, ca) \<Rightarrow>
                 (word_of_nat (((unat cr * unat ca + 128) div 256 + (unat cr * unat ca + 128)) div 256),
                  word_of_nat (((unat cg * unat ca + 128) div 256 + (unat cg * unat ca + 128)) div 256),
                  word_of_nat (((unat cb * unat ca + 128) div 256 + (unat cb * unat ca + 128)) div 256),
                  word_of_nat (((unat ca * unat ca + 128) div 256 + (unat ca * unat ca + 128)) div 256)))
               else (0, 0, 0, 0))"
    unfolding out_def by (intro allI px_final_explicit [OF Rs])
  have vis: "\<forall>x y. alpha (px out x y) \<noteq> 0 \<longleftrightarrow>
              51 \<le> x \<and> x < 972 \<and> 51 \<le> y \<and> y < 972 \<and>
              12 \<le> unat (alpha (px R (x - 51) (y - 51)))"
    unfolding out_def by (intro allI alpha_final_visible [OF Rs])
  have ins: "\<forall>l t r b. getbbox out = Some (l, t, r, b) \<longrightarrow>
              51 \<le> l \<and> 51 \<le> t \<and> r \<le> 972 \<and> b \<le> 972"
    unfolding out_def using getbbox_final_inside [OF Rs] by blast
  have full: "getbbox out = Some (51, 51, 972, 972) \<longleftrightarrow>
              (\<exists>y. 0 \<le> y \<and> y < 921 \<and> 12 \<le> unat (alpha (px R 0 y))) \<and>
              (\<exists>y. 0 \<le> y \<and> y < 921 \<and> 12 \<le> unat (alpha (px R 920 y))) \<and>
              (\<exists>x. 0 \<le> x \<and> x < 921 \<and> 12 \<le> unat (alpha (px R x 0))) \<and>
              (\<exists>x. 0 \<le> x \<and> x < 921 \<and> 12 \<le> unat (alpha (px R x 920)))"
    unfolding out_def by (rule getbbox_final_iff [OF Rs])
  have mg: "getbbox out = Some (51, 51, 972, 972) \<longrightarrow>
              margins out = Some (51, 51, 52, 52) \<and> \<not> equal_margins out"
    using margins_of_box [OF _ os] by blast
  have n: "972 - 51 = content_size" "margin = 51"
    "target_size - (margin + content_size) = 52"
    by (simp_all add: content_size_val margin_val target_size_def)
  show ?thesis
    by (rule exI [of _ img0], rule exI [of _ bx], rule exI [of _ cropped],
        rule exI [of _ R], rule exI [of _ out])
       (intro conjI; fact)
qed

theorem content_square_and_margins_witness:
  "fst (fix_icon_padding (env_of Completes) input_file output_file (icon_world veil))
     = Inr True \<and>
   getbbox (the (saved (snd (fix_icon_padding (env_of Completes) input_file output_file
                               (icon_world veil))) output_file)) = Some (51, 51, 972, 972) \<and>
   margins (the (saved (snd (fix_icon_padding (env_of Completes) input_file output_file
                               (icon_world veil))) output_file)) = Some (51, 51, 52, 52) \<and>
   px (the (saved (snd (fix_icon_padding (env_of Completes) input_file output_file
                          (icon_world veil))) output_file)) 51 51 = (0, 0, 0, 64) \<and>
   px (the (saved (snd (fix_icon_padding (env_of Completes) input_file output_file
                          (icon_world veil))) output_file)) 50 51 = (0, 0, 0, 0)"
proof -
  from run_veil [OF device_env_of] obtain w1 where
    f: "fix_icon_padding (env_of Completes) input_file output_file (icon_world veil) =
         (Inr True, w1)"
    by blast
  from content_square_and_margins [OF f] obtain img0 bx cropped R out where
    o: "Image_open (files (icon_world veil)) input_file = Inr img0"
    and g: "getbbox (ensure_RGBA img0) = Some bx"
    and c: "crop (ensure_RGBA img0) bx = Inr cropped"
    and R: "R = resize (resample (env_of Completes)) cropped (content_size, content_size) LANCZOS"
    and s: "files w1 output_file = Some (Image_file PNG out)"
    and ex: "\<forall>x y. px out x y =
              (if 51 \<le> x \<and> x < 972 \<and> 51 \<le> y \<and> y < 972
               then (case px R (x - 51) (y - 51) of (cr, cg, cb, ca) \<Rightarrow>
                 (word_of_nat (((unat cr * unat ca + 128) div 256 + (unat cr * unat ca + 128)) div 256),
                  word_of_nat (((unat cg * unat ca + 128) div 256 + (unat cg * unat ca + 128)) div 256),
                  word_of_nat (((unat cb * unat ca + 128) div 256 + (unat cb * unat ca + 128)) div 256),
                  word_of_nat (((unat ca * unat ca + 128) div 256 + (unat ca * unat ca + 128)) div 256)))
               else (0, 0, 0, 0))"
    and full: "getbbox out = Some (51, 51, 972, 972) \<longleftrightarrow>
              (\<exists>y. 0 \<le> y \<and> y < 921 \<and> 12 \<le> unat (alpha (px R 0 y))) \<and>
              (\<exists>y. 0 \<le> y \<and> y < 921 \<and> 12 \<le> unat (alpha (px R 920 y))) \<and>
              (\<exists>x. 0 \<le> x \<and> x < 921 \<and> 12 \<le> unat (alpha (px R x 0))) \<and>
              (\<exists>x. 0 \<le> x \<and> x < 921 \<and> 12 \<le> unat (alpha (px R x 920)))"
    and mg: "getbbox out = Some (51, 51, 972, 972) \<longrightarrow>
              margins out = Some (51, 51, 52, 52) \<and> \<not> equal_margins out"
    by blast
  from o have i: "img0 = veil" by (simp add: open_icon_world)
  with g have b: "bx = (0, 0, 921, 921)" by (simp add: ensure_veil getbbox_veil)
  from c have c': "crop veil (0, 0, 921, 921) = Inr cropped" by (simp add: i b ensure_veil)
  with crop_getbbox [OF getbbox_veil] have sz: "size_wh cropped = (921, 921)" by auto
  then have Rc: "R = cropped" by (simp add: R resize_def content_size_val)
  have p: "px R x y = (0, 0, 0, 128)" if "0 \<le> x" "x < 921" "0 \<le> y" "y < 921" for x y
    using px_crop [OF getbbox_veil c', of x y] that
    by (simp add: Rc veil_def Image_new_def)
  then have a: "alpha (px R 0 0) = 128" "alpha (px R 920 0) = 128" "alpha (px R 0 920) = 128"
    by (simp_all add: alpha_def)
  have "getbbox out = Some (51, 51, 972, 972)"
    unfolding full
    by (intro conjI exI [of _ 0]) (simp_all add: a)
  moreover from this mg have "margins out = Some (51, 51, 52, 52)" by simp
  moreover have "px out 51 51 = (0, 0, 0, 64)" "px out 50 51 = (0, 0, 0, 0)"
    using p [of 0 0] by (simp_all add: ex)
  ultimately show ?thesis by (simp add: f s saved_def)
qed




end
